theory Spec2Isabelle
  imports Main
begin

section \<open>Strings\<close>

text \<open>
  A Python \<open>str\<close> is a sequence of Unicode code points and \<open>len\<close> counts code points,
  so a string is modelled as the list of its code points. \<open>u\<close> turns an ASCII literal
  into such a list; ideographs are written by code point.
\<close>

type_synonym ustr = "nat list"

definition u :: "string \<Rightarrow> ustr" where
  "u s = map (of_char :: char \<Rightarrow> nat) s"

text \<open>\<open>s.startswith(p)\<close> and the substring test \<open>kw in s\<close>.\<close>

fun startswith :: "ustr \<Rightarrow> ustr \<Rightarrow> bool" where
  "startswith s [] = True"
| "startswith [] (p # ps) = False"
| "startswith (c # cs) (p # ps) = (c = p \<and> startswith cs ps)"

fun contains :: "ustr \<Rightarrow> ustr \<Rightarrow> bool" where
  "contains [] kw = (kw = [])"
| "contains (c # cs) kw = (startswith (c # cs) kw \<or> contains cs kw)"

text \<open>
  \<open>str.lower()\<close>: the letters \<open>A\<close> to \<open>Z\<close> are mapped to \<open>a\<close> to \<open>z\<close>. Ideographs, digits
  and punctuation have no case and stay as they are; the case table of the other
  alphabets is not reproduced, their letters stay as they are too.
\<close>

definition lower_cp :: "nat \<Rightarrow> nat" where
  "lower_cp c = (if 65 \<le> c \<and> c \<le> 90 then c + 32 else c)"

definition lower :: "ustr \<Rightarrow> ustr" where
  "lower s = map lower_cp s"

section \<open>Categorizer\<close>

text \<open>
  \<open>category_mapping\<close> is a dict literal; iteration over \<open>items()\<close> follows the order in
  which the keys are written, so it is an association list.
\<close>

definition cat_admissions :: ustr where "cat_admissions = [0x62DB, 0x751F]"
definition cat_research :: ustr where "cat_research = [0x79D1, 0x7814]"
definition cat_campus :: ustr where "cat_campus = [0x6821, 0x56ED]"
definition cat_university :: ustr where "cat_university = [0x5927, 0x5B66]"
definition cat_academic :: ustr where "cat_academic = [0x5B66, 0x672F]"
definition cat_events :: ustr where "cat_events = [0x6D3B, 0x52A8]"
definition cat_announcements :: ustr where "cat_announcements = [0x516C, 0x544A]"
definition cat_other :: ustr where "cat_other = [0x5176, 0x4ED6]"

definition category_mapping :: "(ustr \<times> ustr list) list" where
  "category_mapping =
    [(cat_admissions, [[0x62DB, 0x751F], [0x5F55, 0x53D6], u ''admissions'']),
     (cat_research, [[0x5B9E, 0x9A8C], [0x53D1, 0x73B0], [0x7A81, 0x7834], u ''discovery'']),
     (cat_campus, [[0x6821, 0x56ED], [0x6821, 0x56ED, 0x751F, 0x6D3B], u ''campus'']),
     (cat_university, [[0x5927, 0x5B66], [0x5B66, 0x9662], u ''university'']),
     (cat_academic, [[0x7814, 0x7A76], [0x5B66, 0x672F], [0x8BBA, 0x6587], u ''science'',
        u ''research'']),
     (cat_events, [[0x6D3B, 0x52A8], [0x8BB2, 0x5EA7], [0x4F1A, 0x8BAE], u ''event'',
        u ''forum'']),
     (cat_announcements, [[0x901A, 0x77E5], [0x516C, 0x544A], [0x58F0, 0x660E],
        u ''announcement''])]"

text \<open>The loop of \<open>categorize_news\<close> over the items of a mapping.\<close>

fun categorize_in :: "(ustr \<times> ustr list) list \<Rightarrow> ustr \<Rightarrow> ustr" where
  "categorize_in [] title_lower = cat_other"
| "categorize_in ((category, keywords) # rest) title_lower =
     (if list_ex (\<lambda>kw. contains title_lower kw) keywords then category
      else categorize_in rest title_lower)"

definition categorize_news :: "ustr \<Rightarrow> ustr" where
  "categorize_news title = categorize_in category_mapping (lower title)"

text \<open>The two titles the specification uses as examples.\<close>

definition title_fudan_lecture :: ustr where
  "title_fudan_lecture =
     [0x590D, 0x65E6, 0x5927, 0x5B66, 0x4E3E, 0x529E, 0x5B66, 0x672F, 0x8BB2, 0x5EA7]"

definition title_shu_meeting :: ustr where
  "title_shu_meeting =
     [0x4E0A, 0x6D77, 0x5927, 0x5B66, 0x53EC, 0x5F00] @ u ''2024'' @
     [0x5E74, 0x62DB, 0x751F, 0x5DE5, 0x4F5C, 0x4F1A, 0x8BAE]"

section \<open>Exceptions\<close>

text \<open>
  The exceptions of \<open>requests.head\<close>: the \<open>RequestException\<close> family, that is
  \<open>ConnectionError\<close> (the network errors), \<open>Timeout\<close>, \<open>TooManyRedirects\<close>, \<open>InvalidURL\<close>
  (with \<open>MissingSchema\<close> and \<open>InvalidSchema\<close>; these are \<open>ValueError\<close>s as well) and the
  rest of the family, and \<open>UnicodeError\<close>, a \<open>ValueError\<close> outside the family raised for a
  host name that cannot be encoded.

  The exceptions that travel through the program: \<open>ValueError\<close> (\<open>strptime\<close>, \<open>urljoin\<close>),
  \<open>KeyError\<close> (a missing attribute), \<open>ParserRejectedMarkup\<close> of the HTML parser, an
  exception of \<open>requests\<close>, and the errors of \<open>pymysql\<close> with their MySQL error code
  (\<open>args[0]\<close>): \<open>IntegrityError\<close> and, under \<open>MySQLError\<close>, every other one.
\<close>

datatype head_error =
    ConnectionError
  | Timeout
  | TooManyRedirects
  | InvalidURL
  | OtherRequestException
  | UnicodeError

text \<open>\<open>isinstance(e, RequestException)\<close> and \<open>isinstance(e, ValueError)\<close> for these.\<close>

fun is_RequestException :: "head_error \<Rightarrow> bool" where
  "is_RequestException UnicodeError = False"
| "is_RequestException e = True"

fun is_ValueError :: "head_error \<Rightarrow> bool" where
  "is_ValueError InvalidURL = True"
| "is_ValueError UnicodeError = True"
| "is_ValueError e = False"

datatype exn =
    ValueError
  | KeyError
  | ParserRejectedMarkup
  | RequestError head_error
  | IntegrityError int
  | MySQLError int

section \<open>Regular expressions\<close>

text \<open>
  The fragment of Python's \<open>re\<close> that \<open>date_pattern\<close> and the patterns of \<open>strptime\<close> are
  written in. \<open>\d\<close> matches every Unicode decimal digit, not only \<open>0\<close> to \<open>9\<close>; which code
  points those are is a table of the Python runtime, taken here as a parameter \<open>dv\<close> that
  gives the digit's value (\<open>int\<close> reads such digits too).

  \<open>re\<close> is a backtracking matcher: it tries the alternatives of \<open>|\<close> from left to right
  and the longer choice of a greedy \<open>?\<close> first. \<open>matches\<close> lists every way a pattern
  matches at the start of a string, as (matched text, rest), in the order the matcher
  reaches them; the match \<open>re\<close> reports is the head of that list.
\<close>

type_synonym decimal = "nat \<Rightarrow> nat option"

text \<open>
  What the development needs to know of the digit table: \<open>0\<close> to \<open>9\<close> are digits with
  their values, no other code point below U+0660 and no ideograph of U+4E00 to U+9FA5
  is one, and a digit's value is below ten. \<open>ascii_decimal\<close> is the smallest such table.
\<close>

definition decimal_ok :: "decimal \<Rightarrow> bool" where
  "decimal_ok dv =
     ((\<forall>c. 48 \<le> c \<and> c \<le> 57 \<longrightarrow> dv c = Some (c - 48)) \<and>
      (\<forall>c. c < 48 \<or> (57 < c \<and> c < 0x660) \<or> (0x4E00 \<le> c \<and> c \<le> 0x9FA5) \<longrightarrow> dv c = None) \<and>
      (\<forall>c v. dv c = Some v \<longrightarrow> v < 10))"

definition ascii_decimal :: decimal where
  "ascii_decimal c = (if 48 \<le> c \<and> c \<le> 57 then Some (c - 48) else None)"

datatype regex =
    Digit
  | Lit nat
  | Range nat nat
  | Among "nat list"
  | Seq regex regex
  | Alt regex regex
  | Opt regex

fun accepts :: "decimal \<Rightarrow> regex \<Rightarrow> nat \<Rightarrow> bool" where
  "accepts dv Digit c = (dv c \<noteq> None)"
| "accepts dv (Lit a) c = (c = a)"
| "accepts dv (Range a b) c = (a \<le> c \<and> c \<le> b)"
| "accepts dv (Among cs) c = (c \<in> set cs)"
| "accepts dv r c = False"

fun matches :: "decimal \<Rightarrow> regex \<Rightarrow> ustr \<Rightarrow> (ustr \<times> ustr) list" where
  "matches dv (Seq r1 r2) s =
     concat (map (\<lambda>(m1, rest1). map (\<lambda>(m2, rest2). (m1 @ m2, rest2)) (matches dv r2 rest1))
       (matches dv r1 s))"
| "matches dv (Alt r1 r2) s = matches dv r1 s @ matches dv r2 s"
| "matches dv (Opt r) s = matches dv r s @ [([], s)]"
| "matches dv r [] = []"
| "matches dv r (c # cs) = (if accepts dv r c then [([c], cs)] else [])"

text \<open>\<open>pattern.match(s)\<close> and \<open>pattern.search(s)\<close>, as the text of the match.\<close>

definition match_at :: "decimal \<Rightarrow> regex \<Rightarrow> ustr \<Rightarrow> ustr option" where
  "match_at dv r s = (case matches dv r s of [] \<Rightarrow> None | (m, rest) # _ \<Rightarrow> Some m)"

fun search :: "decimal \<Rightarrow> regex \<Rightarrow> ustr \<Rightarrow> ustr option" where
  "search dv r [] = match_at dv r []"
| "search dv r (c # cs) =
     (case match_at dv r (c # cs) of Some m \<Rightarrow> Some m | None \<Rightarrow> search dv r cs)"

text \<open>\<open>\d{4}\<close>, \<open>\d{1,2}\<close>, \<open>\d{2}\<close> and \<open>[-/]?\<close>.\<close>

definition d4 :: regex where "d4 = Seq Digit (Seq Digit (Seq Digit Digit))"
definition d2 :: regex where "d2 = Seq Digit Digit"
definition d12 :: regex where "d12 = Seq Digit (Opt Digit)"
definition sep :: regex where "sep = Opt (Among (u ''-/''))"

section \<open>Date recognizer\<close>

text \<open>The five alternatives of \<open>date_pattern\<close>, in the order they are written.\<close>

definition shape_ymd :: regex where
  "shape_ymd = Seq d4 (Seq sep (Seq d12 (Seq sep d12)))"

definition shape_mdy :: regex where
  "shape_mdy = Seq d12 (Seq sep (Seq d12 (Seq sep d4)))"

definition shape_cjk :: regex where
  "shape_cjk = Seq d4 (Seq (Lit 0x5E74) (Seq d12 (Seq (Lit 0x6708) (Seq d12 (Lit 0x65E5)))))"

definition shape_dym :: regex where
  "shape_dym = Seq d2 (Seq d4 (Seq (Lit 47) d2))"

definition shape_6 :: regex where
  "shape_6 = Seq d2 d4"

definition date_pattern :: regex where
  "date_pattern = Alt shape_ymd (Alt shape_mdy (Alt shape_cjk (Alt shape_dym shape_6)))"

text \<open>
  \<open>chinese_pattern\<close> is the class of the code points U+4E00 to U+9FA5; it has a match in
  a string when \<open>search\<close> finds one.
\<close>

definition chinese_pattern :: regex where
  "chinese_pattern = Range 0x4E00 0x9FA5"

section \<open>Date parser\<close>

text \<open>
  A calendar date. \<open>datetime\<close> accepts the years 1 to 9999 and the days of the proleptic
  Gregorian calendar; anything else raises \<open>ValueError\<close>.
\<close>

record date =
  year :: nat
  month :: nat
  day :: nat

definition isleap :: "nat \<Rightarrow> bool" where
  "isleap y = (y mod 4 = 0 \<and> (y mod 100 \<noteq> 0 \<or> y mod 400 = 0))"

definition days_in_month :: "nat \<Rightarrow> nat \<Rightarrow> nat" where
  "days_in_month y m =
     (if m = 2 then (if isleap y then 29 else 28)
      else if m = 4 \<or> m = 6 \<or> m = 9 \<or> m = 11 then 30 else 31)"

definition datetime :: "nat \<Rightarrow> nat \<Rightarrow> nat \<Rightarrow> exn + date" where
  "datetime y m d =
     (if 1 \<le> y \<and> y \<le> 9999 \<and> 1 \<le> m \<and> m \<le> 12 \<and> 1 \<le> d \<and> d \<le> days_in_month y m
      then Inr \<lparr>year = y, month = m, day = d\<rparr> else Inl ValueError)"

text \<open>
  A format of \<open>date_formats\<close>, read as \<open>strptime\<close> reads it: the directives \<open>%Y\<close>, \<open>%m\<close>
  and \<open>%d\<close>, and characters that stand for themselves. The list is, in the order of
  the source, \<open>%Y\<close> U+5E74 \<open>%m\<close> U+6708 \<open>%d\<close> U+65E5 (year, month and day each followed
  by its ideograph), \<open>%Y%m%d\<close>, \<open>%Y/%m/%d\<close>, \<open>%Y-%m-%d\<close>, \<open>%Y-%m\<close>, \<open>%m%d%Y\<close> and
  \<open>%d%Y/%m\<close>. \<open>directive_regex\<close> is the table of \<open>_strptime.TimeRE\<close> for the three
  directives: four digits for \<open>%Y\<close>, \<open>1[0-2]|0[1-9]|[1-9]\<close> for \<open>%m\<close>, and
  \<open>3[0-1]|[1-2]\d|0[1-9]|[1-9]| [1-9]\<close> for \<open>%d\<close>.
\<close>

datatype fmt_item = Dir_Y | Dir_m | Dir_d | Literal nat

definition date_formats :: "fmt_item list list" where
  "date_formats =
    [[Dir_Y, Literal 0x5E74, Dir_m, Literal 0x6708, Dir_d, Literal 0x65E5],
     [Dir_Y, Dir_m, Dir_d],
     [Dir_Y, Literal 47, Dir_m, Literal 47, Dir_d],
     [Dir_Y, Literal 45, Dir_m, Literal 45, Dir_d],
     [Dir_Y, Literal 45, Dir_m],
     [Dir_m, Dir_d, Dir_Y],
     [Dir_d, Dir_Y, Literal 47, Dir_m]]"

fun directive_regex :: "fmt_item \<Rightarrow> regex" where
  "directive_regex Dir_Y = Seq Digit (Seq Digit (Seq Digit Digit))"
| "directive_regex Dir_m =
     Alt (Seq (Lit 49) (Range 48 50)) (Alt (Seq (Lit 48) (Range 49 57)) (Range 49 57))"
| "directive_regex Dir_d =
     Alt (Seq (Lit 51) (Range 48 49)) (Alt (Seq (Range 49 50) Digit)
       (Alt (Seq (Lit 48) (Range 49 57)) (Alt (Range 49 57) (Seq (Lit 32) (Range 49 57)))))"
| "directive_regex (Literal c) = Lit c"

text \<open>
  The pattern of a format is the sequence of the patterns of its items, each directive
  a named group. \<open>match_fmt\<close> lists the ways it matches at the start of the string, in
  the matcher's order, as (groups, rest).
\<close>

fun match_fmt :: "decimal \<Rightarrow> fmt_item list \<Rightarrow> ustr \<Rightarrow> ((fmt_item \<times> ustr) list \<times> ustr) list" where
  "match_fmt dv [] s = [([], s)]"
| "match_fmt dv (item # items) s =
     concat (map (\<lambda>(m, rest). map (\<lambda>(groups, rest'). ((item, m) # groups, rest'))
         (match_fmt dv items rest))
       (matches dv (directive_regex item) s))"

text \<open>
  \<open>int(text)\<close> for the text of a group: blanks in front are dropped (the last
  alternative of \<open>%d\<close> is the only pattern that matches one), then decimal digits are
  read; \<open>None\<close> stands for the \<open>ValueError\<close> of any other text.
\<close>

fun int_digits :: "decimal \<Rightarrow> nat \<Rightarrow> ustr \<Rightarrow> nat option" where
  "int_digits dv acc [] = Some acc"
| "int_digits dv acc (c # cs) =
     (case dv c of None \<Rightarrow> None | Some v \<Rightarrow> int_digits dv (10 * acc + v) cs)"

definition py_int :: "decimal \<Rightarrow> ustr \<Rightarrow> nat option" where
  "py_int dv s =
     (case dropWhile (\<lambda>c. c = 32) s of [] \<Rightarrow> None | c # cs \<Rightarrow> int_digits dv 0 (c # cs))"

definition group_value :: "decimal \<Rightarrow> (fmt_item \<times> ustr) list \<Rightarrow> fmt_item \<Rightarrow> nat \<Rightarrow> nat option" where
  "group_value dv groups item dflt =
     (case map_of groups item of None \<Rightarrow> Some dflt | Some text \<Rightarrow> py_int dv text)"

text \<open>
  \<open>datetime.strptime(date_str, fmt)\<close>: the pattern must match at the start of the string
  and the match must end where the string ends; the year defaults to 1900, month and day
  to 1; the date must exist.
\<close>

definition strptime :: "decimal \<Rightarrow> ustr \<Rightarrow> fmt_item list \<Rightarrow> exn + date" where
  "strptime dv date_str fmt =
     (case match_fmt dv fmt date_str of
        [] \<Rightarrow> Inl ValueError
      | (groups, rest) # _ \<Rightarrow>
          if rest \<noteq> [] then Inl ValueError
          else (case (group_value dv groups Dir_Y 1900, group_value dv groups Dir_m 1,
                      group_value dv groups Dir_d 1) of
                  (Some y, Some m, Some d) \<Rightarrow> datetime y m d
                | _ \<Rightarrow> Inl ValueError))"

text \<open>
  \<open>parse_date\<close>: the loop over the formats. A \<open>ValueError\<close> moves on to the next format,
  any other exception would leave the function; when the formats are used up the
  function raises \<open>ValueError\<close> itself.
\<close>

fun parse_date_in :: "decimal \<Rightarrow> fmt_item list list \<Rightarrow> ustr \<Rightarrow> exn + date" where
  "parse_date_in dv [] date_str = Inl ValueError"
| "parse_date_in dv (fmt # fmts) date_str =
     (case strptime dv date_str fmt of
        Inr date_obj \<Rightarrow>
          Inr (if fmt = [Dir_Y, Literal 45, Dir_m] then date_obj\<lparr>day := 1\<rparr> else date_obj)
      | Inl ValueError \<Rightarrow> parse_date_in dv fmts date_str
      | Inl e \<Rightarrow> Inl e)"

definition parse_date :: "decimal \<Rightarrow> ustr \<Rightarrow> exn + date" where
  "parse_date dv date_str = parse_date_in dv date_formats date_str"

section \<open>The libraries and the network\<close>

text \<open>
  A parsed document as BeautifulSoup holds it: a node is a string or a tag with its
  name, its attributes and its children. A string has a class, given by the parser:
  \<open>NavigableString\<close> for ordinary text, \<open>CData\<close>, the classes of the text inside
  \<open>style\<close>, \<open>script\<close>, \<open>template\<close>, \<open>rt\<close> and \<open>rp\<close> tags, and \<open>Comment\<close>, which stands here
  for comments, declarations, doctypes and processing instructions alike.
\<close>

datatype string_class =
    NavigableString
  | CData
  | Comment
  | Stylesheet
  | Script
  | TemplateString
  | RubyTextString
  | RubyParenthesisString

datatype node = Str string_class ustr | Tag ustr "(ustr \<times> ustr) list" "node list"

text \<open>A row of the table \<open>news_info\<close>, in the order of the columns of the insert.\<close>

record news_info =
  col_university_name :: ustr
  col_title :: ustr
  col_date :: ustr
  col_link :: ustr
  col_category :: ustr

text \<open>
  What the program calls and does not define, taken as parameters:
  the digit table of the runtime; the replacement of character references by
  \<open>html.unescape\<close> in a string that contains an ampersand; \<open>urllib.parse.urljoin\<close>, which
  raises \<open>ValueError\<close> on some malformed references; the parser behind
  \<open>BeautifulSoup(html_content, 'html.parser')\<close>; the outcome of
  \<open>requests.head(url, timeout=5, allow_redirects=True)\<close>, a status code or an exception;
  when the unique key of the table takes two titles for the same (the collation of the
  column decides, and it need not tell upper from lower case); and the failures of the
  database server other than a duplicate title: on connecting, on executing the
  insert of a row (given the rows the transaction sees), and on committing. Within one
  run the same question gets the same answer: a URL asked twice is answered alike.
\<close>

record runtime =
  decimal_of :: decimal
  unescape_refs :: "ustr \<Rightarrow> ustr"
  urljoin :: "ustr \<Rightarrow> ustr \<Rightarrow> exn + ustr"
  BeautifulSoup :: "ustr \<Rightarrow> exn + node"
  requests_head :: "ustr \<Rightarrow> head_error + int"
  same_title :: "ustr \<Rightarrow> ustr \<Rightarrow> bool"
  connect_error :: "exn option"
  execute_error :: "news_info list \<Rightarrow> news_info \<Rightarrow> exn option"
  commit_error :: "exn option"

section \<open>Link validator\<close>

definition check_url_availability :: "runtime \<Rightarrow> ustr \<Rightarrow> head_error + bool" where
  "check_url_availability rt link_url =
     (case requests_head rt link_url of
        Inr status_code \<Rightarrow> Inr (status_code = 200)
      | Inl e \<Rightarrow> if is_RequestException e \<or> is_ValueError e then Inr False else Inl e)"

section \<open>News extractor\<close>

text \<open>
  \<open>str.strip()\<close> removes the white space of Unicode at both ends; \<open>isspace\<close> lists it.
\<close>

definition isspace :: "nat \<Rightarrow> bool" where
  "isspace c =
     ((9 \<le> c \<and> c \<le> 13) \<or> (28 \<le> c \<and> c \<le> 32) \<or> c = 0x85 \<or> c = 0xA0 \<or> c = 0x1680 \<or>
      (0x2000 \<le> c \<and> c \<le> 0x200A) \<or> c = 0x2028 \<or> c = 0x2029 \<or> c = 0x202F \<or> c = 0x205F \<or>
      c = 0x3000)"

definition strip :: "ustr \<Rightarrow> ustr" where
  "strip s = rev (dropWhile isspace (rev (dropWhile isspace s)))"

text \<open>
  The strings \<open>get_text\<close> reads depend on the tag it is called on: a tag reads, among
  the strings below it in document order, those of its \<open>interesting_string_types\<close>.
  These are \<open>NavigableString\<close> and \<open>CData\<close> for every tag but the five that hold a string
  class of their own, so the text inside an \<open>rt\<close> tag counts for that tag and for none
  of its parents. \<open>get_text()\<close> joins the strings read, and \<open>get_text(strip=True)\<close>
  joins the stripped ones that are not empty.
\<close>

definition interesting_string_types :: "ustr \<Rightarrow> string_class list" where
  "interesting_string_types name =
     (if name = u ''rt'' then [RubyTextString]
      else if name = u ''rp'' then [RubyParenthesisString]
      else if name = u ''style'' then [Stylesheet]
      else if name = u ''script'' then [Script]
      else if name = u ''template'' then [TemplateString]
      else [NavigableString, CData])"

fun strings_of :: "string_class list \<Rightarrow> node \<Rightarrow> ustr list" where
  "strings_of types (Str k s) = (if k \<in> set types then [s] else [])"
| "strings_of types (Tag name attrs children) = concat (map (strings_of types) children)"

fun all_strings :: "node \<Rightarrow> ustr list" where
  "all_strings (Str k s) = [s]"
| "all_strings (Tag name attrs children) =
     concat (map (strings_of (interesting_string_types name)) children)"

definition get_text :: "node \<Rightarrow> ustr" where
  "get_text element = concat (all_strings element)"

definition get_text_strip :: "node \<Rightarrow> ustr" where
  "get_text_strip element = concat (filter (\<lambda>s. s \<noteq> []) (map strip (all_strings element)))"

text \<open>\<open>tag.get(key)\<close>; a string has no attributes.\<close>

fun get_attr :: "node \<Rightarrow> ustr \<Rightarrow> ustr option" where
  "get_attr (Str k s) key = None"
| "get_attr (Tag name attrs children) key = map_of attrs key"

text \<open>
  \<open>find_all('a', href=True)\<close>: the tags named \<open>a\<close> that have an \<open>href\<close>, in document order.
  Each comes with its chain of parents, nearest first, which is what following
  \<open>element.parent\<close> up to the document visits. \<open>find_all\<close> searches below the document
  node, which is not itself a candidate.
\<close>

fun links_of :: "node list \<Rightarrow> node \<Rightarrow> (node \<times> node list) list" where
  "links_of up (Str k s) = []"
| "links_of up (Tag name attrs children) =
     (if name = u ''a'' \<and> map_of attrs (u ''href'') \<noteq> None
      then [(Tag name attrs children, up)] else []) @
     concat (map (links_of (Tag name attrs children # up)) children)"

fun find_all_links :: "node \<Rightarrow> (node \<times> node list) list" where
  "find_all_links (Str k s) = []"
| "find_all_links (Tag name attrs children) =
     concat (map (links_of [Tag name attrs children]) children)"

text \<open>\<open>html.unescape\<close> returns a string without an ampersand as it is.\<close>

definition unescape :: "runtime \<Rightarrow> ustr \<Rightarrow> ustr" where
  "unescape rt s = (if 38 \<in> set s then unescape_refs rt s else s)"

text \<open>
  \<open>strftime('%Y-%m-%d')\<close>: month and day take two digits; the year is printed as the C
  library prints it, in glibc without padding (the years from 1000 on look the same
  everywhere).
\<close>

fun digits :: "nat \<Rightarrow> ustr" where
  "digits n = (if n < 10 then [48 + n] else digits (n div 10) @ [48 + n mod 10])"

declare digits.simps [simp del]

definition pad2 :: "nat \<Rightarrow> ustr" where
  "pad2 n = (if n < 10 then [48, 48 + n] else digits n)"

definition strftime_ymd :: "date \<Rightarrow> ustr" where
  "strftime_ymd d = digits (year d) @ [45] @ pad2 (month d) @ [45] @ pad2 (day d)"

text \<open>The dicts of \<open>news_list\<close>, and those of \<open>formatted_data\<close> in \<open>main\<close>.\<close>

record news =
  title :: ustr
  url :: ustr
  date :: ustr

record item = news +
  university_name :: ustr

text \<open>
  The walk from the link up through its parents: the first element whose text has a
  match of \<open>date_pattern\<close> gives \<open>date_str\<close>.
\<close>

fun find_date :: "decimal \<Rightarrow> node list \<Rightarrow> ustr option" where
  "find_date dv [] = None"
| "find_date dv (element # up) =
     (case search dv date_pattern (get_text element) of
        Some m \<Rightarrow> Some m
      | None \<Rightarrow> find_date dv up)"

text \<open>
  The title of a link: its \<open>title\<close> attribute if it has one that is not empty, else its
  stripped text, with character references resolved.
\<close>

definition link_title :: "runtime \<Rightarrow> node \<Rightarrow> ustr" where
  "link_title rt link =
     unescape rt
       (case get_attr link (u ''title'') of
          Some t \<Rightarrow> if t \<noteq> [] then t else get_text_strip link
        | None \<Rightarrow> get_text_strip link)"

text \<open>
  One round of the loop of \<open>extract_news\<close>: the records the link adds to \<open>news_list\<close>
  (one or none), or the exception that leaves the function. Only the \<open>ValueError\<close> of
  \<open>parse_date\<close> is caught.
\<close>

definition extract_link :: "runtime \<Rightarrow> ustr \<Rightarrow> node \<times> node list \<Rightarrow> exn + news list" where
  "extract_link rt base_url lk =
     (let link = fst lk;
          title_text = link_title rt link
      in if title_text = [] \<or> length title_text < 8 then Inr []
         else if search (decimal_of rt) chinese_pattern title_text = None then Inr []
         else (case get_attr link (u ''href'') of
                 None \<Rightarrow> Inl KeyError
               | Some href \<Rightarrow>
                   (case urljoin rt base_url href of
                      Inl e \<Rightarrow> Inl e
                    | Inr full_url \<Rightarrow>
                        (case find_date (decimal_of rt) (link # snd lk) of
                           None \<Rightarrow> Inr []
                         | Some date_str \<Rightarrow>
                             if date_str \<noteq> [] \<and> full_url \<noteq> [] then
                               (case parse_date (decimal_of rt) date_str of
                                  Inr d \<Rightarrow>
                                    Inr [\<lparr>title = title_text, url = full_url,
                                          date = strftime_ymd d\<rparr>]
                                | Inl ValueError \<Rightarrow> Inr []
                                | Inl e \<Rightarrow> Inl e)
                             else Inr []))))"

fun extract_links :: "runtime \<Rightarrow> ustr \<Rightarrow> news list \<Rightarrow> (node \<times> node list) list \<Rightarrow> exn + news list" where
  "extract_links rt base_url news_list [] = Inr news_list"
| "extract_links rt base_url news_list (lk # lks) =
     (case extract_link rt base_url lk of
        Inl e \<Rightarrow> Inl e
      | Inr new \<Rightarrow> extract_links rt base_url (news_list @ new) lks)"

definition extract_news :: "runtime \<Rightarrow> ustr \<Rightarrow> ustr \<Rightarrow> exn + news list" where
  "extract_news rt html_content base_url =
     (case BeautifulSoup rt html_content of
        Inl e \<Rightarrow> Inl e
      | Inr soup \<Rightarrow> extract_links rt base_url [] (find_all_links soup))"

text \<open>The list \<open>formatted_data\<close> that \<open>main\<close> builds from the records of a site.\<close>

definition formatted_data :: "ustr \<Rightarrow> news list \<Rightarrow> item list" where
  "formatted_data uni_name news_items =
     map (\<lambda>n. \<lparr>title = title n, url = url n, date = date n, university_name = uni_name\<rparr>)
       news_items"

section \<open>Persistence gateway\<close>

text \<open>
  The table is the list of its rows. \<open>title_exists\<close> says that the unique key finds the
  title among the rows. The insert of a row fails with the server's error if there is
  one, with \<open>IntegrityError\<close> 1062 if the title of the row exists already, and adds the
  row otherwise.
\<close>

definition title_exists :: "runtime \<Rightarrow> news_info list \<Rightarrow> ustr \<Rightarrow> bool" where
  "title_exists rt rows t = list_ex (\<lambda>r. same_title rt (col_title r) t) rows"

definition execute_insert :: "runtime \<Rightarrow> news_info list \<Rightarrow> news_info \<Rightarrow> exn + news_info list" where
  "execute_insert rt rows row =
     (case execute_error rt rows row of
        Some e \<Rightarrow> Inl e
      | None \<Rightarrow>
          if title_exists rt rows (col_title row) then Inl (IntegrityError 1062)
          else Inr (rows @ [row]))"

definition row_of :: "item \<Rightarrow> news_info" where
  "row_of it =
     \<lparr>col_university_name = university_name it, col_title = title it, col_date = date it,
      col_link = url it, col_category = categorize_news (title it)\<rparr>"

text \<open>
  The loop of \<open>insert_news_data\<close> inside the transaction: the rows the transaction sees
  and \<open>inserted_count\<close>, or the exception that leaves the loop.
\<close>

fun insert_loop :: "runtime \<Rightarrow> news_info list \<Rightarrow> nat \<Rightarrow> item list \<Rightarrow> exn + (news_info list \<times> nat)" where
  "insert_loop rt rows inserted_count [] = Inr (rows, inserted_count)"
| "insert_loop rt rows inserted_count (it # data) =
     (case check_url_availability rt (url it) of
        Inl e \<Rightarrow> Inl (RequestError e)
      | Inr False \<Rightarrow> insert_loop rt rows inserted_count data
      | Inr True \<Rightarrow>
          (case execute_insert rt rows (row_of it) of
             Inr rows' \<Rightarrow> insert_loop rt rows' (inserted_count + 1) data
           | Inl (IntegrityError code) \<Rightarrow>
               if code = 1062 then insert_loop rt rows inserted_count data
               else Inl (IntegrityError code)
           | Inl e \<Rightarrow> Inl e))"

text \<open>
  \<open>insert_news_data\<close>: the table after the call and the count returned. Every
  exception ends in \<open>return 0\<close>; the connection is then closed without a commit, so the
  rows of the transaction are not in the table.
\<close>

definition insert_news_data :: "runtime \<Rightarrow> news_info list \<Rightarrow> item list \<Rightarrow> news_info list \<times> nat" where
  "insert_news_data rt table data =
     (case connect_error rt of
        Some e \<Rightarrow> (table, 0)
      | None \<Rightarrow>
          (case insert_loop rt table 0 data of
             Inl e \<Rightarrow> (table, 0)
           | Inr (rows, inserted_count) \<Rightarrow>
               (case commit_error rt of
                  Some e \<Rightarrow> (table, 0)
                | None \<Rightarrow> (rows, inserted_count))))"

section \<open>The specification's wording\<close>

text \<open>
  The recognizer in the words of the specification: the text is scanned from left to
  right; at each position the shapes are tried in the order they are listed, and the
  first shape that matches there gives the result.
\<close>

definition date_shapes :: "regex list" where
  "date_shapes = [shape_ymd, shape_mdy, shape_cjk, shape_dym, shape_6]"

fun first_shape :: "decimal \<Rightarrow> regex list \<Rightarrow> ustr \<Rightarrow> ustr option" where
  "first_shape dv [] s = None"
| "first_shape dv (r # rs) s =
     (case match_at dv r s of Some m \<Rightarrow> Some m | None \<Rightarrow> first_shape dv rs s)"

fun recognize_spec :: "decimal \<Rightarrow> regex list \<Rightarrow> ustr \<Rightarrow> ustr option" where
  "recognize_spec dv shapes [] = first_shape dv shapes []"
| "recognize_spec dv shapes (c # cs) =
     (case first_shape dv shapes (c # cs) of
        Some m \<Rightarrow> Some m
      | None \<Rightarrow> recognize_spec dv shapes cs)"

text \<open>
  The parser in the words of the specification. A template parses an input when a
  reading of its fields covers the input exactly, nothing left over; the date it
  produces is the one of its first such reading (a template without a day gives day 1),
  and none when that date does not exist. \<open>first_template\<close> goes through the templates
  in order and keeps the first date produced.
\<close>

definition full_readings :: "decimal \<Rightarrow> fmt_item list \<Rightarrow> ustr \<Rightarrow> (fmt_item \<times> ustr) list list" where
  "full_readings dv fmt s = map fst (filter (\<lambda>(groups, rest). rest = []) (match_fmt dv fmt s))"

definition reading_date :: "decimal \<Rightarrow> (fmt_item \<times> ustr) list \<Rightarrow> date option" where
  "reading_date dv groups =
     (case (group_value dv groups Dir_Y 1900, group_value dv groups Dir_m 1,
            group_value dv groups Dir_d 1) of
        (Some y, Some m, Some d) \<Rightarrow> (case datetime y m d of Inr x \<Rightarrow> Some x | Inl e \<Rightarrow> None)
      | _ \<Rightarrow> None)"

definition template_date :: "decimal \<Rightarrow> fmt_item list \<Rightarrow> ustr \<Rightarrow> date option" where
  "template_date dv fmt s =
     (case full_readings dv fmt s of [] \<Rightarrow> None | groups # _ \<Rightarrow> reading_date dv groups)"

fun first_template :: "decimal \<Rightarrow> fmt_item list list \<Rightarrow> ustr \<Rightarrow> date option" where
  "first_template dv [] s = None"
| "first_template dv (fmt # fmts) s =
     (case template_date dv fmt s of Some d \<Rightarrow> Some d | None \<Rightarrow> first_template dv fmts s)"

text \<open>
  Measures of a format used in the proofs: the fewest characters an item reads, how
  many items of a format can read one character more than that, and the formats in
  which an item of variable width is followed by at most one other such item.
\<close>

fun min_len :: "fmt_item \<Rightarrow> nat" where
  "min_len Dir_Y = 4"
| "min_len item = 1"

fun slack :: "fmt_item \<Rightarrow> nat" where
  "slack Dir_m = 1"
| "slack Dir_d = 1"
| "slack item = 0"

fun ordered :: "fmt_item list \<Rightarrow> bool" where
  "ordered [] = True"
| "ordered (item # items) = (ordered items \<and> (slack item = 0 \<or> sum_list (map slack items) \<le> 1))"

section \<open>Sample documents and a sample runtime\<close>

text \<open>
  The documents of the examples, as HTML text and as the tree the parser builds from
  it: \<open>a_tag href text\<close> is a link with one string in it, \<open>dated d n\<close> a \<open>span\<close> that
  holds the string \<open>d\<close> followed by the node \<open>n\<close>, \<open>document\<close> the node of the whole
  document.
\<close>

definition a_tag :: "ustr \<Rightarrow> ustr \<Rightarrow> node" where
  "a_tag href s = Tag (u ''a'') [(u ''href'', href)] [Str NavigableString s]"

definition dated :: "ustr \<Rightarrow> node \<Rightarrow> node" where
  "dated d n = Tag (u ''span'') [] [Str NavigableString d, n]"

definition document :: "node list \<Rightarrow> node" where
  "document ns = Tag (u ''[document]'') [] ns"

definition html_a :: "ustr \<Rightarrow> ustr \<Rightarrow> ustr" where
  "html_a href s = u ''<a href='' @ href @ u ''>'' @ s @ u ''</a>''"

definition html_dated :: "ustr \<Rightarrow> ustr \<Rightarrow> ustr" where
  "html_dated d inner = u ''<span>'' @ d @ inner @ u ''</span>''"

definition base_shu :: ustr where
  "base_shu = u ''https://news.shu.edu.cn/index/zyxw.htm''"

definition url_news_1 :: ustr where
  "url_news_1 = u ''https://news.shu.edu.cn/news/1.htm''"

definition url_news_2 :: ustr where
  "url_news_2 = u ''https://news.shu.edu.cn/news/2.htm''"

text \<open>One link with the title of the meeting, inside a span that starts with a date.\<close>

definition html_shu :: ustr where
  "html_shu = html_dated (u ''2024-05-10'') (html_a (u ''/news/1.htm'') title_shu_meeting)"

definition doc_shu :: node where
  "doc_shu = document [dated (u ''2024-05-10'') (a_tag (u ''/news/1.htm'') title_shu_meeting)]"

text \<open>Two links with the same title, each with a date of its own.\<close>

definition html_twice :: ustr where
  "html_twice =
     html_dated (u ''2024-05-10'') (html_a (u ''/news/1.htm'') title_shu_meeting) @
     html_dated (u ''2024-05-11'') (html_a (u ''/news/2.htm'') title_shu_meeting)"

definition doc_twice :: node where
  "doc_twice = document
     [dated (u ''2024-05-10'') (a_tag (u ''/news/1.htm'') title_shu_meeting),
      dated (u ''2024-05-11'') (a_tag (u ''/news/2.htm'') title_shu_meeting)]"

text \<open>A link whose nearby date names a month 13, followed by a sound link.\<close>

definition html_bad_date :: ustr where
  "html_bad_date =
     html_dated (u ''2024-13-45'') (html_a (u ''/news/2.htm'') title_shu_meeting) @
     html_dated (u ''2024-05-10'') (html_a (u ''/news/1.htm'') title_shu_meeting)"

definition doc_bad_date :: node where
  "doc_bad_date = document
     [dated (u ''2024-13-45'') (a_tag (u ''/news/2.htm'') title_shu_meeting),
      dated (u ''2024-05-10'') (a_tag (u ''/news/1.htm'') title_shu_meeting)]"

text \<open>A sound link followed by one whose reference opens a bracket and never closes it.\<close>

definition html_bad_href :: ustr where
  "html_bad_href =
     html_dated (u ''2024-05-10'') (html_a (u ''/news/1.htm'') title_shu_meeting) @
     html_dated (u ''2024-05-11'') (html_a (u ''http://['') title_shu_meeting)"

definition doc_bad_href :: node where
  "doc_bad_href = document
     [dated (u ''2024-05-10'') (a_tag (u ''/news/1.htm'') title_shu_meeting),
      dated (u ''2024-05-11'') (a_tag (u ''http://['') title_shu_meeting)]"

text \<open>
  A runtime for the examples. It gives what CPython 3.11, its standard library,
  BeautifulSoup and \<open>requests\<close> give on the inputs above: the trees of the four documents
  and, for the empty text, the document with nothing in it; for \<open>urljoin\<close> with the base
  \<open>base_shu\<close>, the two resolved paths and the \<open>ValueError\<close> (``Invalid IPv6 URL'') for
  \<open>http://[\<close>; for a HEAD request to \<open>http://[\<close>, the \<open>InvalidURL\<close> that \<open>requests\<close> raises
  before it opens a connection; the digits \<open>0\<close> to \<open>9\<close>. None of the sample strings holds
  a character reference. On any other text and any other reference the sample has no
  answer of the real library to give: \<open>sample_BeautifulSoup\<close> and \<open>sample_urljoin\<close> then
  answer with an exception, and no property below rests on that answer. In this
  runtime the first news page answers a HEAD request with 200, the second with 404, no
  other host is reached, the database server works and its key tells any two different
  titles apart.
\<close>

definition sample_BeautifulSoup :: "ustr \<Rightarrow> exn + node" where
  "sample_BeautifulSoup html_content =
     (case map_of [([], document []), (html_shu, doc_shu), (html_twice, doc_twice),
                   (html_bad_date, doc_bad_date), (html_bad_href, doc_bad_href)]
           html_content of
        Some soup \<Rightarrow> Inr soup
      | None \<Rightarrow> Inl ParserRejectedMarkup)"

definition sample_urljoin :: "ustr \<Rightarrow> ustr \<Rightarrow> exn + ustr" where
  "sample_urljoin base ref =
     (if base = base_shu \<and> ref = u ''/news/1.htm'' then Inr url_news_1
      else if base = base_shu \<and> ref = u ''/news/2.htm'' then Inr url_news_2
      else Inl ValueError)"

definition sample_head :: "ustr \<Rightarrow> head_error + int" where
  "sample_head link_url =
     (if link_url = url_news_1 then Inr 200
      else if link_url = url_news_2 then Inr 404
      else if link_url = u ''http://['' then Inl InvalidURL
      else Inl ConnectionError)"

definition sample_runtime :: runtime where
  "sample_runtime =
     \<lparr>decimal_of = ascii_decimal, unescape_refs = (\<lambda>s. s), urljoin = sample_urljoin,
      BeautifulSoup = sample_BeautifulSoup, requests_head = sample_head,
      same_title = (\<lambda>s t. s = t), connect_error = None,
      execute_error = (\<lambda>rows row. None), commit_error = None\<rparr>"

section \<open>Properties: the digit table\<close>

lemma decimal_ok_ascii: "decimal_ok ascii_decimal"
  by (auto simp: decimal_ok_def ascii_decimal_def)

lemma decimal_ok_digit: "decimal_ok dv \<Longrightarrow> 48 \<le> c \<Longrightarrow> c \<le> 57 \<Longrightarrow> dv c = Some (c - 48)"
  by (simp add: decimal_ok_def)

lemma decimal_ok_other:
  "decimal_ok dv \<Longrightarrow> c < 48 \<or> (57 < c \<and> c < 0x660) \<or> (0x4E00 \<le> c \<and> c \<le> 0x9FA5) \<Longrightarrow>
   dv c = None"
  unfolding decimal_ok_def by blast

section \<open>Properties: the categorizer\<close>

lemmas categorize_eval = categorize_news_def category_mapping_def lower_def lower_cp_def u_def
  cat_admissions_def cat_research_def cat_campus_def cat_university_def cat_academic_def
  cat_events_def cat_announcements_def cat_other_def

text \<open>
  C1, as the code has it: for the title of the Fudan lecture, \<open>categorize_news\<close> returns
  the category of the university keywords, the fourth of the mapping, because the title
  contains the keyword U+5927 U+5B66 and no keyword of the three categories before it.
  The keywords U+5B66 U+672F (academic, fifth) and U+8BB2 U+5EA7 (events, sixth) occur
  in the title too, but their categories come later in the order of the mapping.
\<close>

theorem categorize_fudan_lecture_first_match:
  "categorize_news title_fudan_lecture = cat_university \<and>
   map fst category_mapping =
     [cat_admissions, cat_research, cat_campus, cat_university, cat_academic, cat_events,
      cat_announcements] \<and>
   contains (lower title_fudan_lecture) [0x5927, 0x5B66] \<and>
   contains (lower title_fudan_lecture) [0x5B66, 0x672F] \<and>
   contains (lower title_fudan_lecture) [0x8BB2, 0x5EA7] \<and>
   categorize_in (take 3 category_mapping) (lower title_fudan_lecture) = cat_other"
  by (simp add: categorize_eval title_fudan_lecture_def)

text \<open>
  C1 as the specification states it fails: the category returned for that title is not
  the one of the events keywords.
\<close>

theorem categorize_fudan_lecture_not_events:
  "categorize_news title_fudan_lecture \<noteq> cat_events"
  by (simp add: categorize_eval title_fudan_lecture_def)

section \<open>Properties: the date parser\<close>

lemmas date_eval = parse_date_def date_formats_def strptime_def group_value_def py_int_def
  datetime_def days_in_month_def isleap_def u_def

text \<open>
  C4: \<open>parse_date\<close> reads the ideograph form of 5 March 2024 and the eight digits
  \<open>20240305\<close> as 2024-03-05, and \<open>2024-03\<close>, which has no day, as 2024-03-01.
\<close>

theorem parse_date_examples:
  assumes "decimal_ok dv"
  shows "parse_date dv (u ''2024'' @ [0x5E74] @ u ''3'' @ [0x6708] @ u ''5'' @ [0x65E5]) =
           Inr \<lparr>year = 2024, month = 3, day = 5\<rparr> \<and>
         parse_date dv (u ''2024-03'') = Inr \<lparr>year = 2024, month = 3, day = 1\<rparr> \<and>
         parse_date dv (u ''20240305'') = Inr \<lparr>year = 2024, month = 3, day = 5\<rparr>"
  using assms by (simp add: date_eval decimal_ok_digit decimal_ok_other)

theorem parse_date_examples_ascii:
  "parse_date ascii_decimal (u ''2024'' @ [0x5E74] @ u ''3'' @ [0x6708] @ u ''5'' @ [0x65E5]) =
     Inr \<lparr>year = 2024, month = 3, day = 5\<rparr> \<and>
   parse_date ascii_decimal (u ''2024-03'') = Inr \<lparr>year = 2024, month = 3, day = 1\<rparr> \<and>
   parse_date ascii_decimal (u ''20240305'') = Inr \<lparr>year = 2024, month = 3, day = 5\<rparr>"
  using parse_date_examples [OF decimal_ok_ascii] by simp

section \<open>Properties: the date recognizer\<close>

lemma match_at_Alt:
  "match_at dv (Alt r1 r2) s =
     (case match_at dv r1 s of Some m \<Rightarrow> Some m | None \<Rightarrow> match_at dv r2 s)"
  by (simp add: match_at_def split: list.splits)

lemma first_shape_date_shapes: "first_shape dv date_shapes s = match_at dv date_pattern s"
  by (simp add: date_shapes_def date_pattern_def match_at_Alt split: option.splits)

lemma search_recognize_spec: "search dv date_pattern s = recognize_spec dv date_shapes s"
  by (induction s) (simp_all add: first_shape_date_shapes split: option.splits)

lemma matches_split: "(m, rest) \<in> set (matches dv r s) \<Longrightarrow> s = m @ rest"
proof (induction dv r s arbitrary: m rest rule: matches.induct)
  case (1 dv r1 r2 s)
  then show ?case by fastforce
qed (auto split: if_splits)

lemma match_at_prefix: "match_at dv r s = Some m \<Longrightarrow> \<exists>rest. s = m @ rest"
  using matches_split [of m _ dv r s]
  by (auto simp: match_at_def split: list.splits)

lemma first_shape_prefix: "first_shape dv rs s = Some m \<Longrightarrow> \<exists>rest. s = m @ rest"
  by (induction rs) (auto split: option.splits dest: match_at_prefix)

lemma recognize_spec_leftmost:
  "recognize_spec dv shapes text = Some m \<Longrightarrow>
   \<exists>pre post. text = pre @ m @ post \<and> first_shape dv shapes (m @ post) = Some m \<and>
     (\<forall>j < length pre. first_shape dv shapes (drop j text) = None)"
proof (induction "text")
  case Nil
  then show ?case using first_shape_prefix [of dv shapes "[]" m] by auto
next
  case (Cons c cs)
  show ?case
  proof (cases "first_shape dv shapes (c # cs)")
    case (Some m')
    with Cons.prems have eq: "m' = m" by simp
    from Some eq obtain post where "c # cs = m @ post"
      using first_shape_prefix by blast
    with Some eq show ?thesis by (intro exI [of _ "[]"] exI [of _ post]) simp
  next
    case None
    with Cons.prems have "recognize_spec dv shapes cs = Some m" by simp
    from Cons.IH [OF this] obtain pre post where
      p: "cs = pre @ m @ post" "first_shape dv shapes (m @ post) = Some m"
         "\<forall>j < length pre. first_shape dv shapes (drop j cs) = None" by blast
    have "\<forall>j < length (c # pre). first_shape dv shapes (drop j (c # cs)) = None"
    proof (intro allI impI)
      fix j assume "j < length (c # pre)"
      then show "first_shape dv shapes (drop j (c # cs)) = None"
        using None p(3) by (cases j) auto
    qed
    with p(1,2) show ?thesis by (intro exI [of _ "c # pre"] exI [of _ post]) simp
  qed
qed

lemma recognize_spec_none:
  "recognize_spec dv shapes text = None \<Longrightarrow> j \<le> length text \<Longrightarrow>
   first_shape dv shapes (drop j text) = None"
proof (induction "text" arbitrary: j)
  case Nil then show ?case by simp
next
  case (Cons c cs)
  then show ?case by (cases j) (auto split: option.splits)
qed

lemmas shape_eval = match_at_def shape_ymd_def shape_mdy_def shape_cjk_def shape_dym_def shape_6_def
  d4_def d2_def d12_def sep_def u_def

text \<open>
  C6: the search with \<open>date_pattern\<close> is the scan of the specification: the result is the
  match of the first shape, in the listed order, that matches at the leftmost position
  where any shape matches; with no match anywhere there is no result. Eight digits
  meant as month, day, year are matched by the first shape, year-month-day, although
  the second shape matches them as well.
\<close>

theorem recognize_first_match:
  "search dv date_pattern s = recognize_spec dv date_shapes s \<and>
   (search dv date_pattern s = Some m \<longrightarrow>
      (\<exists>pre post. s = pre @ m @ post \<and> first_shape dv date_shapes (m @ post) = Some m \<and>
         (\<forall>j < length pre. first_shape dv date_shapes (drop j s) = None))) \<and>
   (search dv date_pattern s = None \<longrightarrow>
      (\<forall>j \<le> length s. first_shape dv date_shapes (drop j s) = None)) \<and>
   (decimal_ok dv \<longrightarrow>
      match_at dv shape_ymd (u ''05102024'') = Some (u ''05102024'') \<and>
      match_at dv shape_mdy (u ''05102024'') = Some (u ''05102024'') \<and>
      first_shape dv date_shapes (u ''05102024'') = match_at dv shape_ymd (u ''05102024'') \<and>
      search dv date_pattern (u ''05102024'') = Some (u ''05102024''))"
proof (intro conjI impI)
  show "search dv date_pattern s = recognize_spec dv date_shapes s"
    by (rule search_recognize_spec)
  show "\<exists>pre post. s = pre @ m @ post \<and> first_shape dv date_shapes (m @ post) = Some m \<and>
      (\<forall>j < length pre. first_shape dv date_shapes (drop j s) = None)"
    if "search dv date_pattern s = Some m"
    using that recognize_spec_leftmost [of dv date_shapes s m]
    by (simp add: search_recognize_spec)
  show "\<forall>j \<le> length s. first_shape dv date_shapes (drop j s) = None"
    if "search dv date_pattern s = None"
    using that recognize_spec_none [of dv date_shapes s]
    by (simp add: search_recognize_spec)
next
  assume ok: "decimal_ok dv"
  then show "match_at dv shape_ymd (u ''05102024'') = Some (u ''05102024'')"
    by (simp add: shape_eval decimal_ok_digit)
  from ok show "match_at dv shape_mdy (u ''05102024'') = Some (u ''05102024'')"
    by (simp add: shape_eval decimal_ok_digit)
  from ok show "first_shape dv date_shapes (u ''05102024'') = match_at dv shape_ymd (u ''05102024'')"
    by (simp add: date_shapes_def shape_eval decimal_ok_digit)
  from ok show "search dv date_pattern (u ''05102024'') = Some (u ''05102024'')"
    by (simp add: date_pattern_def shape_eval decimal_ok_digit)
qed

theorem recognize_first_match_ascii:
  "search ascii_decimal date_pattern (u ''x 2024-05-10'') = Some (u ''2024-05-10'') \<and>
   recognize_spec ascii_decimal date_shapes (u ''x 2024-05-10'') = Some (u ''2024-05-10'') \<and>
   first_shape ascii_decimal date_shapes (u ''x 2024-05-10'') = None \<and>
   search ascii_decimal date_pattern (u ''no date'') = None \<and>
   first_shape ascii_decimal date_shapes (u ''date'') = None \<and>
   search ascii_decimal date_pattern (u ''05102024'') = Some (u ''05102024'')"
  using recognize_first_match [of ascii_decimal "u ''x 2024-05-10''" "u ''2024-05-10''"]
    recognize_first_match [of ascii_decimal "u ''no date''"] decimal_ok_ascii
  by (simp add: date_pattern_def date_shapes_def shape_eval ascii_decimal_def)

section \<open>Properties: templates and the parser\<close>

lemma matches_atom:
  "matches dv Digit s = (case s of [] \<Rightarrow> [] | c # cs \<Rightarrow> if dv c \<noteq> None then [([c], cs)] else [])"
  "matches dv (Lit a) s = (case s of [] \<Rightarrow> [] | c # cs \<Rightarrow> if c = a then [([c], cs)] else [])"
  "matches dv (Range a b) s =
     (case s of [] \<Rightarrow> [] | c # cs \<Rightarrow> if a \<le> c \<and> c \<le> b then [([c], cs)] else [])"
  "matches dv (Among as) s =
     (case s of [] \<Rightarrow> [] | c # cs \<Rightarrow> if c \<in> set as then [([c], cs)] else [])"
  by (cases s; simp)+

lemma matches_item_bounds:
  "(m, r) \<in> set (matches dv (directive_regex item) s) \<Longrightarrow>
   length r + min_len item \<le> length s \<and> length s \<le> length r + min_len item + slack item"
  by (cases item) (auto simp: matches_atom split: list.splits if_splits)

lemma matches_item_strict:
  "sorted_wrt (<) (map (\<lambda>p. length (snd p)) (matches dv (directive_regex item) s))"
  by (cases item) (auto simp: matches_atom split: list.splits if_splits)

lemma matches_item_single:
  "slack item = 0 \<Longrightarrow> length (matches dv (directive_regex item) s) \<le> 1"
  by (cases item) (auto simp: matches_atom split: list.splits if_splits)

lemma match_fmt_bounds:
  "(g, r) \<in> set (match_fmt dv fmt s) \<Longrightarrow>
   length r + sum_list (map min_len fmt) \<le> length s \<and>
   length s \<le> length r + sum_list (map min_len fmt) + sum_list (map slack fmt)"
proof (induction fmt arbitrary: g r s)
  case Nil
  then show ?case by simp
next
  case (Cons item items)
  from Cons.prems obtain m rest g' where
    m: "(m, rest) \<in> set (matches dv (directive_regex item) s)" and
    g': "(g', r) \<in> set (match_fmt dv items rest)"
    by auto
  from matches_item_bounds [OF m] Cons.IH [OF g'] show ?case by simp
qed

lemma match_fmt_keys: "(g, r) \<in> set (match_fmt dv fmt s) \<Longrightarrow> map fst g = fmt"
  by (induction fmt arbitrary: g r s) auto

lemma sorted_concat_map:
  fixes f :: "'a \<Rightarrow> nat list"
  assumes "sorted_wrt (\<lambda>a b. \<forall>x\<in>set (f a). \<forall>y\<in>set (f b). x \<le> y) xs"
    and "\<forall>a\<in>set xs. sorted (f a)"
  shows "sorted (concat (map f xs))"
  using assms by (induction xs) (auto simp: sorted_append)

lemma match_fmt_lengths:
  "map (\<lambda>p. length (snd p)) (match_fmt dv (item # items) s) =
   concat (map (\<lambda>q. map (\<lambda>p. length (snd p)) (match_fmt dv items (snd q)))
     (matches dv (directive_regex item) s))"
  by (simp add: map_concat o_def case_prod_beta)

lemma match_fmt_sorted:
  "ordered fmt \<Longrightarrow> sorted (map (\<lambda>p. length (snd p)) (match_fmt dv fmt s))"
proof (induction fmt arbitrary: s)
  case Nil
  then show ?case by simp
next
  case (Cons item items)
  let ?L = "matches dv (directive_regex item) s"
  let ?f = "\<lambda>q. map (\<lambda>p. length (snd p)) (match_fmt dv items (snd q))"
  let ?P = "\<lambda>a b. \<forall>x\<in>set (?f a). \<forall>y\<in>set (?f b). x \<le> y"
  from Cons.prems have ord: "ordered items"
    and alt: "slack item = 0 \<or> sum_list (map slack items) \<le> 1" by simp_all
  have blocks: "\<forall>a\<in>set ?L. sorted (?f a)"
    using Cons.IH [OF ord] by simp
  have pairs: "sorted_wrt ?P ?L"
  proof (cases "slack item = 0")
    case True
    from matches_item_single [OF this, of dv s] show ?thesis
      by (cases ?L) (auto simp: Suc_le_eq)
  next
    case False
    with alt have sl: "sum_list (map slack items) \<le> 1" by simp
    have strict: "sorted_wrt (\<lambda>a b. length (snd a) < length (snd b)) ?L"
      using matches_item_strict [of dv item s] by (simp add: sorted_wrt_map)
    have step: "?P a b" if "length (snd a) < length (snd b)" for a b :: "ustr \<times> ustr"
    proof (intro ballI)
      fix x y
      assume "x \<in> set (?f a)" "y \<in> set (?f b)"
      then obtain ga ra gb rb where
        a: "(ga, ra) \<in> set (match_fmt dv items (snd a))" "x = length ra" and
        b: "(gb, rb) \<in> set (match_fmt dv items (snd b))" "y = length rb"
        by auto
      from match_fmt_bounds [OF a(1)] match_fmt_bounds [OF b(1)] that sl a(2) b(2)
      show "x \<le> y" by linarith
    qed
    from strict show ?thesis
      by (rule sorted_wrt_mono_rel [rotated]) (use step in blast)
  qed
  show ?case
    unfolding match_fmt_lengths by (rule sorted_concat_map [OF pairs blocks])
qed

lemma match_fmt_full_first:
  assumes "ordered fmt" and "match_fmt dv fmt s = (g, r) # L" and "(g', []) \<in> set L"
  shows "r = []"
proof -
  from match_fmt_sorted [OF assms(1), of dv s] assms(2)
  have "\<forall>p\<in>set L. length r \<le> length (snd p)" by simp
  with assms(3) show ?thesis by fastforce
qed

lemma datetime_error: "datetime y m d = Inl e \<Longrightarrow> e = ValueError"
  by (simp add: datetime_def split: if_splits)

lemma strptime_template_date:
  assumes "ordered fmt"
  shows "strptime dv s fmt =
    (case template_date dv fmt s of Some d \<Rightarrow> Inr d | None \<Rightarrow> Inl ValueError)"
proof (cases "match_fmt dv fmt s")
  case Nil
  then show ?thesis by (simp add: strptime_def template_date_def full_readings_def)
next
  case (Cons p L)
  obtain g r where p: "p = (g, r)" by (cases p)
  show ?thesis
  proof (cases "r = []")
    case True
    with Cons p show ?thesis
      by (auto simp: strptime_def template_date_def full_readings_def reading_date_def
          split: option.splits sum.splits dest: datetime_error)
  next
    case False
    have "filter (\<lambda>(groups, rest). rest = []) L = []"
      using match_fmt_full_first [OF assms, of dv s g r L] Cons p False
      by (auto simp: filter_empty_conv)
    with Cons p False show ?thesis
      by (simp add: strptime_def template_date_def full_readings_def)
  qed
qed


lemma template_date_no_day:
  assumes "Dir_d \<notin> set fmt" and "template_date dv fmt s = Some d"
  shows "day d = 1"
proof -
  from assms(2) obtain g where g: "g \<in> set (full_readings dv fmt s)" "reading_date dv g = Some d"
    by (auto simp: template_date_def split: list.splits)
  from g(1) obtain r where "(g, r) \<in> set (match_fmt dv fmt s)"
    by (auto simp: full_readings_def)
  from match_fmt_keys [OF this] assms(1) have "map_of g Dir_d = None"
    by (simp add: map_of_eq_None_iff) (metis list.set_map)
  with g(2) show ?thesis
    by (auto simp: reading_date_def group_value_def datetime_def
        split: option.splits sum.splits if_splits)
qed

lemma parse_date_in_first_template:
  "\<forall>fmt\<in>set fmts. ordered fmt \<Longrightarrow>
   parse_date_in dv fmts s =
     (case first_template dv fmts s of None \<Rightarrow> Inl ValueError | Some d \<Rightarrow> Inr d)"
proof (induction fmts)
  case Nil
  then show ?case by simp
next
  case (Cons fmt fmts)
  then have ord: "ordered fmt" and IH: "parse_date_in dv fmts s =
     (case first_template dv fmts s of None \<Rightarrow> Inl ValueError | Some d \<Rightarrow> Inr d)"
    by simp_all
  show ?case
  proof (cases "template_date dv fmt s")
    case None
    then show ?thesis by (simp add: strptime_template_date [OF ord] IH)
  next
    case (Some d)
    have "d\<lparr>day := 1\<rparr> = d" if "fmt = [Dir_Y, Literal 45, Dir_m]"
      using template_date_no_day [of fmt dv s d] that Some by simp
    with Some show ?thesis by (simp add: strptime_template_date [OF ord])
  qed
qed

lemma date_formats_ordered: "\<forall>fmt\<in>set date_formats. ordered fmt"
  by (simp add: date_formats_def)

lemma first_template_None: 
  "first_template dv fmts s = None \<longleftrightarrow> (\<forall>fmt\<in>set fmts. template_date dv fmt s = None)"
  by (induction fmts) (auto split: option.splits)

lemma first_template_Some:
  "first_template dv fmts s = Some d \<longleftrightarrow>
   (\<exists>i<length fmts. template_date dv (fmts ! i) s = Some d \<and>
      (\<forall>j<i. template_date dv (fmts ! j) s = None))"
proof (induction fmts)
  case Nil
  then show ?case by simp
next
  case (Cons fmt fmts)
  show ?case
  proof (cases "template_date dv fmt s")
    case (Some d')
    show ?thesis
    proof
      assume "first_template dv (fmt # fmts) s = Some d"
      with Some have "d' = d" by simp
      with Some show "\<exists>i<length (fmt # fmts). template_date dv ((fmt # fmts) ! i) s = Some d \<and>
        (\<forall>j<i. template_date dv ((fmt # fmts) ! j) s = None)"
        by (intro exI [of _ 0]) simp
    next
      assume "\<exists>i<length (fmt # fmts). template_date dv ((fmt # fmts) ! i) s = Some d \<and>
        (\<forall>j<i. template_date dv ((fmt # fmts) ! j) s = None)"
      then obtain i where i: "i < length (fmt # fmts)"
        "template_date dv ((fmt # fmts) ! i) s = Some d"
        "\<forall>j<i. template_date dv ((fmt # fmts) ! j) s = None" by blast
      have "i = 0"
      proof (rule ccontr)
        assume "i \<noteq> 0"
        with i(3) have "template_date dv ((fmt # fmts) ! 0) s = None" by blast
        with Some show False by simp
      qed
      with i(2) Some show "first_template dv (fmt # fmts) s = Some d" by simp
    qed
  next
    case None
    have "(\<exists>i<length (fmt # fmts). template_date dv ((fmt # fmts) ! i) s = Some d \<and>
        (\<forall>j<i. template_date dv ((fmt # fmts) ! j) s = None)) \<longleftrightarrow>
      (\<exists>i<length fmts. template_date dv (fmts ! i) s = Some d \<and>
        (\<forall>j<i. template_date dv (fmts ! j) s = None))" (is "?L \<longleftrightarrow> ?R")
    proof
      assume ?L
      then obtain i where i: "i < length (fmt # fmts)"
        "template_date dv ((fmt # fmts) ! i) s = Some d"
        "\<forall>j<i. template_date dv ((fmt # fmts) ! j) s = None" by blast
      from i(2) None obtain k where k: "i = Suc k" by (cases i) auto
      have "\<forall>j<k. template_date dv (fmts ! j) s = None"
      proof (intro allI impI)
        fix j assume "j < k"
        then have "Suc j < i" using k by simp
        with i(3) have "template_date dv ((fmt # fmts) ! Suc j) s = None" by blast
        then show "template_date dv (fmts ! j) s = None" by simp
      qed
      with i(1,2) k show ?R by (intro exI [of _ k]) simp
    next
      assume ?R
      then obtain i where i: "i < length fmts" "template_date dv (fmts ! i) s = Some d"
        "\<forall>j<i. template_date dv (fmts ! j) s = None" by blast
      have "\<forall>j<Suc i. template_date dv ((fmt # fmts) ! j) s = None"
      proof (intro allI impI)
        fix j assume "j < Suc i"
        then show "template_date dv ((fmt # fmts) ! j) s = None"
          using None i(3) by (cases j) auto
      qed
      with i(1,2) show ?L by (intro exI [of _ "Suc i"]) simp
    qed
    with None Cons.IH show ?thesis by simp
  qed
qed

text \<open>
  C5: \<open>parse_date\<close> goes through the seven templates in their fixed order and returns the
  date of the first one that parses the full input; the template of year and month
  alone gives day 1; it raises, and then \<open>ValueError\<close>, exactly when no template parses
  the input.
\<close>

theorem parse_date_first_template:
  "parse_date dv s =
     (case first_template dv date_formats s of None \<Rightarrow> Inl ValueError | Some d \<Rightarrow> Inr d) \<and>
   (parse_date dv s = Inr d \<longleftrightarrow>
      (\<exists>i<length date_formats. template_date dv (date_formats ! i) s = Some d \<and>
         (\<forall>j<i. template_date dv (date_formats ! j) s = None))) \<and>
   (parse_date dv s = Inl e \<longleftrightarrow>
      e = ValueError \<and> (\<forall>fmt\<in>set date_formats. template_date dv fmt s = None)) \<and>
   (template_date dv [Dir_Y, Literal 45, Dir_m] s = Some d \<longrightarrow> day d = 1) \<and>
   date_formats =
     [[Dir_Y, Literal 0x5E74, Dir_m, Literal 0x6708, Dir_d, Literal 0x65E5],
      [Dir_Y, Dir_m, Dir_d],
      [Dir_Y, Literal 47, Dir_m, Literal 47, Dir_d],
      [Dir_Y, Literal 45, Dir_m, Literal 45, Dir_d],
      [Dir_Y, Literal 45, Dir_m],
      [Dir_m, Dir_d, Dir_Y],
      [Dir_d, Dir_Y, Literal 47, Dir_m]]"
proof -
  have eq: "parse_date dv s =
     (case first_template dv date_formats s of None \<Rightarrow> Inl ValueError | Some d \<Rightarrow> Inr d)"
    unfolding parse_date_def
    by (rule parse_date_in_first_template [OF date_formats_ordered])
  have ok: "parse_date dv s = Inr d \<longleftrightarrow> first_template dv date_formats s = Some d"
    by (simp add: eq split: option.splits)
  have err: "parse_date dv s = Inl e \<longleftrightarrow> e = ValueError \<and> first_template dv date_formats s = None"
    by (auto simp: eq split: option.splits)
  have noday: "day d = 1" if "template_date dv [Dir_Y, Literal 45, Dir_m] s = Some d"
    using template_date_no_day [of "[Dir_Y, Literal 45, Dir_m]" dv s d] that by simp
  have fmts: "date_formats =
     [[Dir_Y, Literal 0x5E74, Dir_m, Literal 0x6708, Dir_d, Literal 0x65E5],
      [Dir_Y, Dir_m, Dir_d],
      [Dir_Y, Literal 47, Dir_m, Literal 47, Dir_d],
      [Dir_Y, Literal 45, Dir_m, Literal 45, Dir_d],
      [Dir_Y, Literal 45, Dir_m],
      [Dir_m, Dir_d, Dir_Y],
      [Dir_d, Dir_Y, Literal 47, Dir_m]]"
    by (simp add: date_formats_def)
  from ok have ok': "parse_date dv s = Inr d \<longleftrightarrow>
      (\<exists>i<length date_formats. template_date dv (date_formats ! i) s = Some d \<and>
         (\<forall>j<i. template_date dv (date_formats ! j) s = None))"
    by (simp only: first_template_Some)
  from err have err': "parse_date dv s = Inl e \<longleftrightarrow>
      e = ValueError \<and> (\<forall>fmt\<in>set date_formats. template_date dv fmt s = None)"
    by (simp only: first_template_None)
  from noday have noday': "template_date dv [Dir_Y, Literal 45, Dir_m] s = Some d \<longrightarrow> day d = 1"
    by blast
  show ?thesis
    by (rule conjI [OF eq conjI [OF ok' conjI [OF err' conjI [OF noday' fmts]]]])
qed

lemmas template_eval = template_date_def full_readings_def reading_date_def

theorem parse_date_first_template_ascii:
  "parse_date ascii_decimal (u ''2024-03'') = Inr \<lparr>year = 2024, month = 3, day = 1\<rparr> \<and>
   first_template ascii_decimal date_formats (u ''2024-03'') =
     Some \<lparr>year = 2024, month = 3, day = 1\<rparr> \<and>
   template_date ascii_decimal [Dir_Y, Literal 45, Dir_m] (u ''2024-03'') =
     Some \<lparr>year = 2024, month = 3, day = 1\<rparr> \<and>
   parse_date ascii_decimal (u ''2024-13'') = Inl ValueError \<and>
   first_template ascii_decimal date_formats (u ''2024-13'') = None"
proof -
  let ?d = "\<lparr>year = 2024, month = 3, day = 1\<rparr>"
  have p1: "parse_date ascii_decimal (u ''2024-03'') = Inr ?d"
    by (simp add: date_eval ascii_decimal_def)
  have p2: "parse_date ascii_decimal (u ''2024-13'') = Inl ValueError"
    by (simp add: date_eval ascii_decimal_def)
  have t1: "template_date ascii_decimal [Dir_Y, Literal 45, Dir_m] (u ''2024-03'') = Some ?d"
    by (simp add: template_eval date_eval ascii_decimal_def)
  from parse_date_first_template [of ascii_decimal "u ''2024-03''" ?d ValueError] p1
  have f1: "first_template ascii_decimal date_formats (u ''2024-03'') = Some ?d"
    by (simp split: option.splits)
  from parse_date_first_template [of ascii_decimal "u ''2024-13''" ?d ValueError] p2
  have f2: "first_template ascii_decimal date_formats (u ''2024-13'') = None"
    by (simp split: option.splits)
  from p1 f1 t1 p2 f2 show ?thesis by simp
qed

section \<open>Properties: the link validator and the extractor\<close>

lemma check_url_availability_cases:
  "(\<exists>b. check_url_availability rt link = Inr b) \<and>
   (check_url_availability rt link = Inr True \<longleftrightarrow> requests_head rt link = Inr 200) \<and>
   (\<forall>e. requests_head rt link = Inl e \<longrightarrow> check_url_availability rt link = Inr False)"
proof (cases "requests_head rt link")
  case (Inl e)
  then show ?thesis by (cases e) (auto simp: check_url_availability_def)
next
  case (Inr status_code)
  then show ?thesis by (auto simp: check_url_availability_def)
qed

lemma search_chinese:
  "search dv chinese_pattern s \<noteq> None \<Longrightarrow> \<exists>c\<in>set s. 0x4E00 \<le> c \<and> c \<le> 0x9FA5"
  by (induction s) (auto simp: chinese_pattern_def match_at_def split: if_splits option.splits)

lemma extract_link_titles:
  assumes "extract_link rt base_url lk = Inr new" and "r \<in> set new"
  shows "8 \<le> length (title r) \<and> (\<exists>c\<in>set (title r). 0x4E00 \<le> c \<and> c \<le> 0x9FA5)"
  using assms search_chinese [of "decimal_of rt"]
  by (auto simp: extract_link_def Let_def
      split: if_splits option.splits sum.splits exn.splits)

lemma extract_links_titles:
  assumes "extract_links rt base_url news_list lks = Inr out"
    and "\<forall>r\<in>set news_list. 8 \<le> length (title r) \<and> (\<exists>c\<in>set (title r). 0x4E00 \<le> c \<and> c \<le> 0x9FA5)"
    and "r \<in> set out"
  shows "8 \<le> length (title r) \<and> (\<exists>c\<in>set (title r). 0x4E00 \<le> c \<and> c \<le> 0x9FA5)"
  using assms
proof (induction lks arbitrary: news_list)
  case Nil
  then show ?case by simp
next
  case (Cons lk lks)
  from Cons.prems(1) obtain new where
    new: "extract_link rt base_url lk = Inr new" and
    rest: "extract_links rt base_url (news_list @ new) lks = Inr out"
    by (auto split: sum.splits)
  have "\<forall>r\<in>set (news_list @ new).
      8 \<le> length (title r) \<and> (\<exists>c\<in>set (title r). 0x4E00 \<le> c \<and> c \<le> 0x9FA5)"
    using Cons.prems(2) extract_link_titles [OF new] by auto
  from Cons.IH [OF rest this Cons.prems(3)] show ?case .
qed

section \<open>Properties: the persistence gateway\<close>

lemma execute_insert_Inr:
  "execute_insert rt rows row = Inr rows' \<Longrightarrow>
   rows' = rows @ [row] \<and> \<not> title_exists rt rows (col_title row)"
  by (auto simp: execute_insert_def split: option.splits if_splits)

lemma execute_insert_duplicate:
  "title_exists rt rows (col_title row) \<Longrightarrow> execute_error rt rows row = None \<Longrightarrow>
   execute_insert rt rows row = Inl (IntegrityError 1062)"
  by (simp add: execute_insert_def)

lemma title_exists_append:
  "title_exists rt (rows @ rows') t \<longleftrightarrow> title_exists rt rows t \<or> title_exists rt rows' t"
  by (simp add: title_exists_def)

lemma check_url_availability_total: "\<exists>b. check_url_availability rt link_url = Inr b"
  by (cases "requests_head rt link_url"; cases "projl (requests_head rt link_url)")
     (auto simp: check_url_availability_def)

lemma insert_loop_rows:
  "insert_loop rt rows n data = Inr (rows', n') \<Longrightarrow>
   \<exists>new. rows' = rows @ new \<and> n' = n + length new \<and>
     (\<forall>r\<in>set new. \<exists>it\<in>set data. r = row_of it \<and> check_url_availability rt (url it) = Inr True) \<and>
     (\<forall>r\<in>set new. \<not> title_exists rt rows (col_title r)) \<and>
     sorted_wrt (\<lambda>r r'. \<not> same_title rt (col_title r) (col_title r')) new"
proof (induction data arbitrary: rows n)
  case Nil
  then show ?case by simp
next
  case (Cons it data)
  show ?case
  proof (cases "check_url_availability rt (url it) = Inr True \<and>
      (\<exists>rows1. execute_insert rt rows (row_of it) = Inr rows1)")
    case True
    then obtain rows1 where ex: "execute_insert rt rows (row_of it) = Inr rows1" by blast
    from execute_insert_Inr [OF ex] have r1: "rows1 = rows @ [row_of it]"
      and fresh: "\<not> title_exists rt rows (col_title (row_of it))" by simp_all
    from Cons.prems True ex have "insert_loop rt rows1 (n + 1) data = Inr (rows', n')"
      by simp
    from Cons.IH [OF this] obtain new where new: "rows' = rows1 @ new" "n' = n + 1 + length new"
      "\<forall>r\<in>set new. \<exists>it\<in>set data. r = row_of it \<and> check_url_availability rt (url it) = Inr True"
      "\<forall>r\<in>set new. \<not> title_exists rt rows1 (col_title r)"
      "sorted_wrt (\<lambda>r r'. \<not> same_title rt (col_title r) (col_title r')) new" by blast
    from new(4) r1 have old: "\<forall>r\<in>set new. \<not> title_exists rt rows (col_title r)"
      and head: "\<forall>r\<in>set new. \<not> same_title rt (col_title (row_of it)) (col_title r)"
      by (simp_all add: title_exists_append) (simp_all add: title_exists_def)
    show ?thesis
    proof (intro exI [of _ "row_of it # new"] conjI)
      show "rows' = rows @ row_of it # new" using new(1) r1 by simp
      show "n' = n + length (row_of it # new)" using new(2) by simp
      show "\<forall>r\<in>set (row_of it # new). \<exists>it\<in>set (it # data). r = row_of it \<and>
          check_url_availability rt (url it) = Inr True"
        using new(3) True by auto
      show "\<forall>r\<in>set (row_of it # new). \<not> title_exists rt rows (col_title r)"
        using old fresh by simp
      show "sorted_wrt (\<lambda>r r'. \<not> same_title rt (col_title r) (col_title r')) (row_of it # new)"
        using new(5) head by simp
    qed
  next
    case False
    with Cons.prems have "insert_loop rt rows n data = Inr (rows', n')"
      by (auto split: sum.splits bool.splits exn.splits if_splits)
    from Cons.IH [OF this] show ?thesis by auto
  qed
qed

lemma insert_loop_skip_duplicate:
  assumes "title_exists rt rows (col_title (row_of it))"
    and "\<forall>rows'. execute_error rt rows' (row_of it) = None"
  shows "insert_loop rt rows n (pre @ it # post) = insert_loop rt rows n (pre @ post)"
  using assms(1)
proof (induction pre arbitrary: rows n)
  case Nil
  from check_url_availability_total obtain b where
    "check_url_availability rt (url it) = Inr b" by blast
  with Nil assms(2) show ?case
    by (cases b) (simp_all add: execute_insert_duplicate)
next
  case (Cons x pre)
  show ?case
  proof (cases "check_url_availability rt (url x) = Inr True \<and>
      (\<exists>rows1. execute_insert rt rows (row_of x) = Inr rows1)")
    case True
    then obtain rows1 where ex: "execute_insert rt rows (row_of x) = Inr rows1" by blast
    from execute_insert_Inr [OF ex] Cons.prems
    have "title_exists rt rows1 (col_title (row_of it))"
      by (simp add: title_exists_append)
    from Cons.IH [OF this] True ex show ?thesis by simp
  next
    case False
    with Cons.IH [OF Cons.prems] show ?thesis
      by (auto split: sum.splits bool.splits exn.splits if_splits)
  qed
qed

lemma insert_loop_duplicate_alone:
  assumes "title_exists rt rows (col_title (row_of it))"
  shows "insert_loop rt rows n [it] = Inr (rows, n) \<or> (\<exists>e. insert_loop rt rows n [it] = Inl e)"
proof -
  from check_url_availability_total obtain b where
    b: "check_url_availability rt (url it) = Inr b" by blast
  show ?thesis
  proof (cases "execute_insert rt rows (row_of it)")
    case (Inl e)
    with b show ?thesis by (cases b; cases e) auto
  next
    case (Inr rows1)
    from execute_insert_Inr [OF this] assms show ?thesis by simp
  qed
qed

lemma insert_news_data_result:
  "\<exists>new. fst (insert_news_data rt table data) = table @ new \<and>
     snd (insert_news_data rt table data) = length new \<and>
     (\<forall>r\<in>set new. \<exists>it\<in>set data. r = row_of it \<and> check_url_availability rt (url it) = Inr True) \<and>
     (\<forall>r\<in>set new. \<not> title_exists rt table (col_title r)) \<and>
     sorted_wrt (\<lambda>r r'. \<not> same_title rt (col_title r) (col_title r')) new"
proof (cases "insert_news_data rt table data = (table, 0)")
  case True
  then show ?thesis by (intro exI [of _ "[]"]) simp
next
  case False
  then obtain rows n where loop: "insert_loop rt table 0 data = Inr (rows, n)"
    and res: "insert_news_data rt table data = (rows, n)"
    by (auto simp: insert_news_data_def split: option.splits sum.splits)
  from insert_loop_rows [OF loop] res show ?thesis by auto
qed

lemma row_of_url: "row_of it = row_of it' \<Longrightarrow> url it = url it'"
  by (simp add: row_of_def)

text \<open>
  C8: after \<open>insert_news_data\<close> the table is the old table followed by the rows
  inserted, and the count returned is their number. No record whose link the validator
  reports unreachable is among them, and no row whose title existed in the table
  already. A batch of one record whose title exists leaves the table as it was and
  returns 0; in a longer batch such a record changes nothing, the batch ends as it
  would without the record, when the server reports no other failure for it. The
  function returns a count in every case, it has no way to raise.
\<close>

theorem insert_news_data_batch:
  "(\<exists>new. fst (insert_news_data rt table data) = table @ new \<and>
      snd (insert_news_data rt table data) = length new \<and>
      (\<forall>it\<in>set data. check_url_availability rt (url it) = Inr False \<longrightarrow> row_of it \<notin> set new) \<and>
      (\<forall>r\<in>set new. \<not> title_exists rt table (col_title r)) \<and>
      sorted_wrt (\<lambda>r r'. \<not> same_title rt (col_title r) (col_title r')) new) \<and>
   (title_exists rt table (title it) \<longrightarrow> insert_news_data rt table [it] = (table, 0)) \<and>
   (title_exists rt table (title it) \<and> (\<forall>rows. execute_error rt rows (row_of it) = None) \<longrightarrow>
      insert_news_data rt table (pre @ it # post) = insert_news_data rt table (pre @ post))"
proof (intro conjI)
  from insert_news_data_result [of rt table data] obtain new where
    new: "fst (insert_news_data rt table data) = table @ new"
      "snd (insert_news_data rt table data) = length new"
      "\<forall>r\<in>set new. \<exists>it\<in>set data. r = row_of it \<and> check_url_availability rt (url it) = Inr True"
      "\<forall>r\<in>set new. \<not> title_exists rt table (col_title r)"
      "sorted_wrt (\<lambda>r r'. \<not> same_title rt (col_title r) (col_title r')) new" by blast
  have "row_of it \<notin> set new"
    if "it \<in> set data" and "check_url_availability rt (url it) = Inr False" for it
  proof
    assume "row_of it \<in> set new"
    with new(3) obtain it' where "row_of it = row_of it'"
      "check_url_availability rt (url it') = Inr True" by blast
    with that(2) row_of_url [of it it'] show False by simp
  qed
  with new show "\<exists>new. fst (insert_news_data rt table data) = table @ new \<and>
      snd (insert_news_data rt table data) = length new \<and>
      (\<forall>it\<in>set data. check_url_availability rt (url it) = Inr False \<longrightarrow> row_of it \<notin> set new) \<and>
      (\<forall>r\<in>set new. \<not> title_exists rt table (col_title r)) \<and>
      sorted_wrt (\<lambda>r r'. \<not> same_title rt (col_title r) (col_title r')) new"
    by (intro exI [of _ new]) blast
next
  show "title_exists rt table (title it) \<longrightarrow> insert_news_data rt table [it] = (table, 0)"
  proof
    assume "title_exists rt table (title it)"
    then have "title_exists rt table (col_title (row_of it))" by (simp add: row_of_def)
    from insert_loop_duplicate_alone [OF this, of 0]
    show "insert_news_data rt table [it] = (table, 0)"
      by (auto simp: insert_news_data_def split: option.splits)
  qed
next
  show "title_exists rt table (title it) \<and> (\<forall>rows. execute_error rt rows (row_of it) = None) \<longrightarrow>
      insert_news_data rt table (pre @ it # post) = insert_news_data rt table (pre @ post)"
  proof (intro impI, elim conjE)
    assume dup: "title_exists rt table (title it)"
      and ok: "\<forall>rows. execute_error rt rows (row_of it) = None"
    from dup have dup': "title_exists rt table (col_title (row_of it))"
      by (simp add: row_of_def)
    have skip: "insert_loop rt table 0 (pre @ it # post) = insert_loop rt table 0 (pre @ post)"
      by (rule insert_loop_skip_duplicate [OF dup' ok])
    show "insert_news_data rt table (pre @ it # post) = insert_news_data rt table (pre @ post)"
      unfolding insert_news_data_def skip by (rule refl)
  qed
qed

theorem insert_news_data_batch_sample:
  "insert_news_data sample_runtime
     [\<lparr>col_university_name = u ''SHU'', col_title = title_shu_meeting, col_date = u ''2024-05-10'',
       col_link = url_news_1, col_category = cat_admissions\<rparr>]
     [\<lparr>title = title_shu_meeting, url = url_news_1, date = u ''2024-05-10'',
       university_name = u ''SHU''\<rparr>,
      \<lparr>title = title_fudan_lecture, url = url_news_2, date = u ''2024-05-11'',
       university_name = u ''SHU''\<rparr>,
      \<lparr>title = title_fudan_lecture, url = url_news_1, date = u ''2024-05-12'',
       university_name = u ''SHU''\<rparr>] =
   ([\<lparr>col_university_name = u ''SHU'', col_title = title_shu_meeting, col_date = u ''2024-05-10'',
       col_link = url_news_1, col_category = cat_admissions\<rparr>,
     row_of \<lparr>title = title_fudan_lecture, url = url_news_1, date = u ''2024-05-12'',
       university_name = u ''SHU''\<rparr>], 1)"
proof -
  let ?table = "[\<lparr>col_university_name = u ''SHU'', col_title = title_shu_meeting,
       col_date = u ''2024-05-10'', col_link = url_news_1, col_category = cat_admissions\<rparr>]"
  let ?dup = "\<lparr>title = title_shu_meeting, url = url_news_1, date = u ''2024-05-10'',
       university_name = u ''SHU''\<rparr>"
  let ?dead = "\<lparr>title = title_fudan_lecture, url = url_news_2, date = u ''2024-05-11'',
       university_name = u ''SHU''\<rparr>"
  let ?fresh = "\<lparr>title = title_fudan_lecture, url = url_news_1, date = u ''2024-05-12'',
       university_name = u ''SHU''\<rparr>"
  have neq: "title_fudan_lecture \<noteq> title_shu_meeting"
    by (simp add: title_fudan_lecture_def title_shu_meeting_def)
  have urls: "url_news_2 \<noteq> url_news_1"
    by (simp add: url_news_1_def url_news_2_def u_def)
  have rest: "insert_news_data sample_runtime ?table [?dead, ?fresh] = (?table @ [row_of ?fresh], 1)"
    using neq urls
    by (simp add: insert_news_data_def sample_runtime_def check_url_availability_def
        sample_head_def execute_insert_def title_exists_def row_of_def)
  from insert_news_data_batch [of sample_runtime ?table "[?dup, ?dead, ?fresh]" ?dup "[]"
      "[?dead, ?fresh]"]
  have "insert_news_data sample_runtime ?table [?dup, ?dead, ?fresh] =
      insert_news_data sample_runtime ?table [?dead, ?fresh]"
    by (simp add: sample_runtime_def title_exists_def)
  with rest show ?thesis by simp
qed

section \<open>Properties: the sample documents\<close>

lemmas doc_eval = document_def dated_def a_tag_def get_text_def get_text_strip_def strip_def
  isspace_def unescape_def title_shu_meeting_def chinese_pattern_def
  interesting_string_types_def

lemmas pattern_eval = match_at_def date_pattern_def shape_ymd_def shape_mdy_def shape_cjk_def
  shape_dym_def shape_6_def d4_def d2_def d12_def sep_def

lemmas strftime_eval = strftime_ymd_def pad2_def digits.simps

text \<open>A link of the samples: its title is the string inside it, which holds no date.\<close>

lemma extract_link_a_tag:
  assumes "decimal_ok (decimal_of rt)"
  shows "extract_link rt base_url (a_tag href title_shu_meeting, up) =
     (case urljoin rt base_url href of
        Inl e \<Rightarrow> Inl e
      | Inr full_url \<Rightarrow>
          (case find_date (decimal_of rt) up of
             None \<Rightarrow> Inr []
           | Some date_str \<Rightarrow>
               if date_str \<noteq> [] \<and> full_url \<noteq> [] then
                 (case parse_date (decimal_of rt) date_str of
                    Inr d \<Rightarrow> Inr [\<lparr>title = title_shu_meeting, url = full_url,
                                   date = strftime_ymd d\<rparr>]
                  | Inl ValueError \<Rightarrow> Inr []
                  | Inl e \<Rightarrow> Inl e)
               else Inr []))"
  using assms
  by (simp add: extract_link_def link_title_def Let_def doc_eval pattern_eval u_def
      decimal_ok_digit decimal_ok_other split: sum.splits option.splits exn.splits)

lemma find_date_dated:
  assumes "decimal_ok dv"
  shows "find_date dv (dated (u ''2024-05-10'') (a_tag href title_shu_meeting) # up) =
           Some (u ''2024-05-10'')"
    and "find_date dv (dated (u ''2024-05-11'') (a_tag href title_shu_meeting) # up) =
           Some (u ''2024-05-11'')"
    and "find_date dv (dated (u ''2024-13-45'') (a_tag href title_shu_meeting) # up) =
           Some (u ''2024-13-45'')"
  using assms
  by (simp_all add: doc_eval pattern_eval u_def decimal_ok_digit decimal_ok_other)

lemma parse_date_samples:
  assumes "decimal_ok dv"
  shows "parse_date dv (u ''2024-05-10'') = Inr \<lparr>year = 2024, month = 5, day = 10\<rparr>"
    and "parse_date dv (u ''2024-05-11'') = Inr \<lparr>year = 2024, month = 5, day = 11\<rparr>"
    and "parse_date dv (u ''2024-13-45'') = Inl ValueError"
  using assms by (simp_all add: date_eval decimal_ok_digit decimal_ok_other)

lemma strftime_samples:
  "strftime_ymd \<lparr>year = 2024, month = 5, day = 10\<rparr> = u ''2024-05-10''"
  "strftime_ymd \<lparr>year = 2024, month = 5, day = 11\<rparr> = u ''2024-05-11''"
  by (simp_all add: strftime_eval u_def)

lemma find_all_links_samples:
  "find_all_links (document [dated da (a_tag ha sa)]) =
     [(a_tag ha sa, [dated da (a_tag ha sa), document [dated da (a_tag ha sa)]])]"
  "find_all_links (document [dated da (a_tag ha sa), dated db (a_tag hb sb)]) =
     [(a_tag ha sa, [dated da (a_tag ha sa),
         document [dated da (a_tag ha sa), dated db (a_tag hb sb)]]),
      (a_tag hb sb, [dated db (a_tag hb sb),
         document [dated da (a_tag ha sa), dated db (a_tag hb sb)]])]"
  by (simp_all add: document_def dated_def a_tag_def)

lemma sample_nonempty: "url_news_1 \<noteq> []" "url_news_2 \<noteq> []" "u ''2024-05-10'' \<noteq> []"
  "u ''2024-05-11'' \<noteq> []" "u ''2024-13-45'' \<noteq> []"
  by (simp_all add: url_news_1_def url_news_2_def u_def)

lemma extract_news_doc_shu:
  assumes "BeautifulSoup rt html_content = Inr doc_shu"
    and "urljoin rt base_shu (u ''/news/1.htm'') = Inr url_news_1"
    and "decimal_ok (decimal_of rt)"
  shows "extract_news rt html_content base_shu =
           Inr [\<lparr>title = title_shu_meeting, url = url_news_1, date = u ''2024-05-10''\<rparr>]"
  using assms
  by (simp add: extract_news_def doc_shu_def find_all_links_samples extract_link_a_tag
      find_date_dated parse_date_samples strftime_samples sample_nonempty
      del: find_date.simps)

text \<open>
  C2: a document with one link, of text the title of the Shanghai University meeting
  and reference \<open>/news/1.htm\<close>, inside a span whose text starts with \<open>2024-05-10\<close>, and
  the base URL \<open>https://news.shu.edu.cn/index/zyxw.htm\<close>, against which the reference
  resolves to \<open>https://news.shu.edu.cn/news/1.htm\<close>: \<open>extract_news\<close> returns exactly
  one record, with that title, that URL and the date \<open>2024-05-10\<close>, and the category of
  the title is the one of admissions.
\<close>

theorem extract_news_shu_scenario:
  assumes "BeautifulSoup rt html_content = Inr doc_shu"
    and "urljoin rt base_shu (u ''/news/1.htm'') = Inr url_news_1"
    and "decimal_ok (decimal_of rt)"
  shows "extract_news rt html_content base_shu =
           Inr [\<lparr>title = title_shu_meeting, url = url_news_1, date = u ''2024-05-10''\<rparr>] \<and>
         categorize_news title_shu_meeting = cat_admissions"
proof
  show "extract_news rt html_content base_shu =
      Inr [\<lparr>title = title_shu_meeting, url = url_news_1, date = u ''2024-05-10''\<rparr>]"
    by (rule extract_news_doc_shu [OF assms])
  show "categorize_news title_shu_meeting = cat_admissions"
    by (simp add: categorize_eval title_shu_meeting_def)
qed

lemma sample_parser:
  "BeautifulSoup sample_runtime html_shu = Inr doc_shu"
  "BeautifulSoup sample_runtime html_twice = Inr doc_twice"
  "BeautifulSoup sample_runtime html_bad_date = Inr doc_bad_date"
  "BeautifulSoup sample_runtime html_bad_href = Inr doc_bad_href"
  "BeautifulSoup sample_runtime [] = Inr (document [])"
  by (simp_all add: sample_runtime_def sample_BeautifulSoup_def html_shu_def html_twice_def
      html_bad_date_def html_bad_href_def html_dated_def html_a_def u_def)

lemma sample_urls:
  "urljoin sample_runtime base_shu (u ''/news/1.htm'') = Inr url_news_1"
  "urljoin sample_runtime base_shu (u ''/news/2.htm'') = Inr url_news_2"
  "urljoin sample_runtime base_shu (u ''http://['') = Inl ValueError"
  by (simp_all add: sample_runtime_def sample_urljoin_def u_def)

lemma sample_decimal: "decimal_ok (decimal_of sample_runtime)"
  by (simp add: sample_runtime_def decimal_ok_ascii)

theorem extract_news_shu_scenario_sample:
  "extract_news sample_runtime html_shu base_shu =
     Inr [\<lparr>title = title_shu_meeting, url = url_news_1, date = u ''2024-05-10''\<rparr>] \<and>
   categorize_news title_shu_meeting = cat_admissions"
  by (rule extract_news_shu_scenario [OF sample_parser(1) sample_urls(1) sample_decimal])

lemma extract_link_filter:
  "length (link_title rt (fst lk)) < 8 \<or>
   \<not> (\<exists>c\<in>set (link_title rt (fst lk)). 0x4E00 \<le> c \<and> c \<le> 0x9FA5) \<Longrightarrow>
   extract_link rt base_url lk = Inr []"
  using search_chinese [of "decimal_of rt" "link_title rt (fst lk)"]
  by (auto simp: extract_link_def Let_def)

lemma extract_link_title:
  "extract_link rt base_url lk = Inr new \<Longrightarrow> r \<in> set new \<Longrightarrow> title r = link_title rt (fst lk)"
  by (auto simp: extract_link_def Let_def split: if_splits option.splits sum.splits exn.splits)

text \<open>
  C3: every record \<open>extract_news\<close> returns has a title of at least 8 characters with an
  ideograph of U+4E00 to U+9FA5 in it. The title of a record is the title derived from
  its link, and a link whose derived title is shorter than 8 characters or has no
  such ideograph adds no record.
\<close>

theorem extract_news_titles:
  "(extract_news rt html_content base_url = Inr records \<and> r \<in> set records \<longrightarrow>
      8 \<le> length (title r) \<and> (\<exists>c\<in>set (title r). 0x4E00 \<le> c \<and> c \<le> 0x9FA5)) \<and>
   (length (link_title rt (fst lk)) < 8 \<or>
    \<not> (\<exists>c\<in>set (link_title rt (fst lk)). 0x4E00 \<le> c \<and> c \<le> 0x9FA5) \<longrightarrow>
      extract_link rt base_url lk = Inr []) \<and>
   (extract_link rt base_url lk = Inr new \<and> r \<in> set new \<longrightarrow> title r = link_title rt (fst lk))"
proof -
  have a: "8 \<le> length (title r) \<and> (\<exists>c\<in>set (title r). 0x4E00 \<le> c \<and> c \<le> 0x9FA5)"
    if "extract_news rt html_content base_url = Inr records \<and> r \<in> set records"
  proof -
    from that obtain soup where
      "extract_links rt base_url [] (find_all_links soup) = Inr records"
      by (auto simp: extract_news_def split: sum.splits)
    from extract_links_titles [OF this _ conjunct2 [OF that]] show ?thesis by simp
  qed
  have b: "extract_link rt base_url lk = Inr []"
    if "length (link_title rt (fst lk)) < 8 \<or>
      \<not> (\<exists>c\<in>set (link_title rt (fst lk)). 0x4E00 \<le> c \<and> c \<le> 0x9FA5)"
    using that by (rule extract_link_filter)
  have c: "title r = link_title rt (fst lk)"
    if "extract_link rt base_url lk = Inr new \<and> r \<in> set new"
    using that extract_link_title by blast
  from a b c show ?thesis by blast
qed

theorem extract_news_titles_sample:
  "extract_news sample_runtime html_shu base_shu =
     Inr [\<lparr>title = title_shu_meeting, url = url_news_1, date = u ''2024-05-10''\<rparr>] \<and>
   8 \<le> length title_shu_meeting \<and>
   (\<exists>c\<in>set title_shu_meeting. 0x4E00 \<le> c \<and> c \<le> 0x9FA5) \<and>
   extract_link sample_runtime base_shu (a_tag (u ''/news/1.htm'') (u ''news''), []) = Inr [] \<and>
   link_title sample_runtime (a_tag (u ''/news/1.htm'') title_shu_meeting) = title_shu_meeting"
proof -
  let ?r = "\<lparr>title = title_shu_meeting, url = url_news_1, date = u ''2024-05-10''\<rparr>"
  have ex: "extract_news sample_runtime html_shu base_shu = Inr [?r]"
    by (rule extract_news_doc_shu [OF sample_parser(1) sample_urls(1) sample_decimal])
  have short: "length (link_title sample_runtime (a_tag (u ''/news/1.htm'') (u ''news''))) < 8"
    by (simp add: link_title_def doc_eval u_def)
  note t = extract_news_titles [of sample_runtime html_shu base_shu "[?r]" ?r
      "(a_tag (u ''/news/1.htm'') (u ''news''), [])"]
  from t ex have "8 \<le> length (title ?r) \<and> (\<exists>c\<in>set (title ?r). 0x4E00 \<le> c \<and> c \<le> 0x9FA5)"
    by simp
  moreover from t short
  have "extract_link sample_runtime base_shu (a_tag (u ''/news/1.htm'') (u ''news''), []) = Inr []"
    by simp
  moreover have "link_title sample_runtime (a_tag (u ''/news/1.htm'') title_shu_meeting) =
      title_shu_meeting"
    by (simp add: link_title_def doc_eval u_def)
  ultimately show ?thesis using ex by simp
qed

text \<open>
  C9: \<open>check_url_availability\<close> returns a truth value whatever \<open>requests.head\<close> does, it
  never raises; the value is true exactly when the request ends with status 200, and
  false whenever the request raises (a network error, a timeout, a rejected URL).
\<close>

theorem check_url_availability_never_raises:
  "(\<exists>b. check_url_availability rt link_url = Inr b) \<and>
   (check_url_availability rt link_url = Inr True \<longleftrightarrow> requests_head rt link_url = Inr 200) \<and>
   (\<forall>e. requests_head rt link_url = Inl e \<longrightarrow> check_url_availability rt link_url = Inr False)"
  by (rule check_url_availability_cases)

theorem check_url_availability_sample:
  "check_url_availability sample_runtime url_news_1 = Inr True \<and>
   check_url_availability sample_runtime url_news_2 = Inr False \<and>
   requests_head sample_runtime (u ''http://['') = Inl InvalidURL \<and>
   check_url_availability sample_runtime (u ''http://['') = Inr False \<and>
   requests_head sample_runtime (u ''https://news.shu.edu.cn/'') = Inl ConnectionError \<and>
   check_url_availability sample_runtime (u ''https://news.shu.edu.cn/'') = Inr False"
proof -
  have h: "requests_head sample_runtime url_news_1 = Inr 200"
    "requests_head sample_runtime (u ''http://['') = Inl InvalidURL"
    "requests_head sample_runtime (u ''https://news.shu.edu.cn/'') = Inl ConnectionError"
    by (simp_all add: sample_runtime_def sample_head_def url_news_1_def url_news_2_def u_def)
  have "check_url_availability sample_runtime url_news_2 = Inr False"
    by (simp add: check_url_availability_def sample_runtime_def sample_head_def url_news_1_def
        url_news_2_def u_def)
  with check_url_availability_never_raises [of sample_runtime url_news_1]
    check_url_availability_never_raises [of sample_runtime "u ''http://[''"]
    check_url_availability_never_raises [of sample_runtime "u ''https://news.shu.edu.cn/''"] h
  show ?thesis by simp
qed

section \<open>Properties: failures during extraction\<close>

lemma strptime_error: "strptime dv s fmt = Inl e \<Longrightarrow> e = ValueError"
  by (auto simp: strptime_def split: list.splits if_splits option.splits dest: datetime_error)

lemma parse_date_in_error: "parse_date_in dv fmts s = Inl e \<Longrightarrow> e = ValueError"
  by (induction fmts) (auto split: sum.splits exn.splits dest: strptime_error)

lemma parse_date_error: "parse_date dv s = Inl e \<Longrightarrow> e = ValueError"
  unfolding parse_date_def by (rule parse_date_in_error)

lemma links_of_href:
  "(link, up) \<in> set (links_of anc n) \<Longrightarrow> get_attr link (u ''href'') \<noteq> None"
  by (induction anc n rule: links_of.induct) (auto split: if_splits)

lemma find_all_links_href:
  "(link, up) \<in> set (find_all_links soup) \<Longrightarrow> get_attr link (u ''href'') \<noteq> None"
  by (cases soup) (auto dest: links_of_href)

lemma extract_link_bad_date:
  assumes "get_attr (fst lk) (u ''href'') = Some href"
    and "urljoin rt base_url href = Inr full_url"
    and "find_date (decimal_of rt) (fst lk # snd lk) = Some date_str"
    and "parse_date (decimal_of rt) date_str = Inl e"
  shows "extract_link rt base_url lk = Inr []"
  using assms parse_date_error [OF assms(4)]
  by (simp add: extract_link_def Let_def)

lemma extract_links_skip:
  "extract_link rt base_url lk = Inr [] \<Longrightarrow>
   extract_links rt base_url news_list (pre @ lk # post) =
   extract_links rt base_url news_list (pre @ post)"
  by (induction pre arbitrary: news_list) (auto split: sum.splits)

lemma extract_link_error:
  assumes "extract_link rt base_url lk = Inl e" and "get_attr (fst lk) (u ''href'') \<noteq> None"
  shows "\<exists>href. get_attr (fst lk) (u ''href'') = Some href \<and> urljoin rt base_url href = Inl e"
  using assms
  by (auto simp: extract_link_def Let_def split: if_splits option.splits sum.splits exn.splits
      dest: parse_date_error)

lemma extract_links_error:
  "extract_links rt base_url news_list lks = Inl e \<Longrightarrow>
   \<exists>lk\<in>set lks. extract_link rt base_url lk = Inl e"
  by (induction lks arbitrary: news_list) (auto split: sum.splits)

lemma extract_news_error_source:
  assumes "extract_news rt html_content base_url = Inl e"
  shows "BeautifulSoup rt html_content = Inl e \<or>
    (\<exists>soup lk href. BeautifulSoup rt html_content = Inr soup \<and> lk \<in> set (find_all_links soup) \<and>
       get_attr (fst lk) (u ''href'') = Some href \<and> urljoin rt base_url href = Inl e)"
proof (cases "BeautifulSoup rt html_content")
  case (Inl x)
  with assms show ?thesis by (simp add: extract_news_def)
next
  case (Inr soup)
  with assms have "extract_links rt base_url [] (find_all_links soup) = Inl e"
    by (simp add: extract_news_def)
  from extract_links_error [OF this] obtain lk where
    lk: "lk \<in> set (find_all_links soup)" "extract_link rt base_url lk = Inl e" by blast
  from lk(1) have "get_attr (fst lk) (u ''href'') \<noteq> None"
    using find_all_links_href [of "fst lk" "snd lk" soup] by simp
  from extract_link_error [OF lk(2) this] obtain href where
    "get_attr (fst lk) (u ''href'') = Some href" "urljoin rt base_url href = Inl e" by blast
  with Inr lk(1) show ?thesis by blast
qed

text \<open>
  C7: the code breaks it. In the first document below the nearby date of the first
  link names a month 13: that link is dropped alone and the record of the second link
  is returned, as the claim says. In the second document the parser reads both links
  and the first is sound, it gives its record when taken alone; but \<open>urljoin\<close> rejects
  the reference \<open>http://[\<close> of the second link with a \<open>ValueError\<close>, the call stands
  outside the \<open>try\<close> that catches the \<open>ValueError\<close> of a date, and \<open>extract_news\<close> raises:
  the record of the first link is lost although the document was parsed.
\<close>

theorem extract_news_aborts_on_rejected_href:
  "extract_news sample_runtime html_bad_date base_shu =
     Inr [\<lparr>title = title_shu_meeting, url = url_news_1, date = u ''2024-05-10''\<rparr>] \<and>
   BeautifulSoup sample_runtime html_bad_href = Inr doc_bad_href \<and>
   extract_link sample_runtime base_shu
     (a_tag (u ''/news/1.htm'') title_shu_meeting,
      [dated (u ''2024-05-10'') (a_tag (u ''/news/1.htm'') title_shu_meeting), doc_bad_href]) =
     Inr [\<lparr>title = title_shu_meeting, url = url_news_1, date = u ''2024-05-10''\<rparr>] \<and>
   urljoin sample_runtime base_shu (u ''http://['') = Inl ValueError \<and>
   extract_news sample_runtime html_bad_href base_shu = Inl ValueError"
  by (simp add: extract_news_def sample_parser doc_bad_date_def doc_bad_href_def
      find_all_links_samples extract_link_a_tag [OF sample_decimal] sample_urls
      find_date_dated [OF sample_decimal] parse_date_samples [OF sample_decimal]
      strftime_samples sample_nonempty del: find_date.simps)

text \<open>
  C10: for a document with two links of the same title, each with a date nearby,
  \<open>extract_news\<close> returns two records with that title. Only the insert tells them apart:
  with both links reachable and the server working, \<open>insert_news_data\<close> stores the first
  and returns 1.
\<close>

theorem extract_news_keeps_duplicates:
  assumes "BeautifulSoup rt html_content = Inr doc_twice"
    and "urljoin rt base_shu (u ''/news/1.htm'') = Inr url_news_1"
    and "urljoin rt base_shu (u ''/news/2.htm'') = Inr url_news_2"
    and "decimal_ok (decimal_of rt)"
  shows "extract_news rt html_content base_shu =
           Inr [\<lparr>title = title_shu_meeting, url = url_news_1, date = u ''2024-05-10''\<rparr>,
                \<lparr>title = title_shu_meeting, url = url_news_2, date = u ''2024-05-11''\<rparr>] \<and>
         (requests_head rt url_news_1 = Inr 200 \<and> requests_head rt url_news_2 = Inr 200 \<and>
          same_title rt title_shu_meeting title_shu_meeting \<and>
          connect_error rt = None \<and> commit_error rt = None \<and>
          (\<forall>rows row. execute_error rt rows row = None) \<longrightarrow>
            insert_news_data rt []
              (formatted_data uni_name
                 [\<lparr>title = title_shu_meeting, url = url_news_1, date = u ''2024-05-10''\<rparr>,
                  \<lparr>title = title_shu_meeting, url = url_news_2, date = u ''2024-05-11''\<rparr>]) =
            ([row_of \<lparr>title = title_shu_meeting, url = url_news_1, date = u ''2024-05-10'',
                      university_name = uni_name\<rparr>], 1))"
proof
  show "extract_news rt html_content base_shu =
           Inr [\<lparr>title = title_shu_meeting, url = url_news_1, date = u ''2024-05-10''\<rparr>,
                \<lparr>title = title_shu_meeting, url = url_news_2, date = u ''2024-05-11''\<rparr>]"
    using assms
    by (simp add: extract_news_def doc_twice_def find_all_links_samples extract_link_a_tag
        find_date_dated parse_date_samples strftime_samples sample_nonempty
        del: find_date.simps)
  show "requests_head rt url_news_1 = Inr 200 \<and> requests_head rt url_news_2 = Inr 200 \<and>
          same_title rt title_shu_meeting title_shu_meeting \<and>
          connect_error rt = None \<and> commit_error rt = None \<and>
          (\<forall>rows row. execute_error rt rows row = None) \<longrightarrow>
            insert_news_data rt []
              (formatted_data uni_name
                 [\<lparr>title = title_shu_meeting, url = url_news_1, date = u ''2024-05-10''\<rparr>,
                  \<lparr>title = title_shu_meeting, url = url_news_2, date = u ''2024-05-11''\<rparr>]) =
            ([row_of \<lparr>title = title_shu_meeting, url = url_news_1, date = u ''2024-05-10'',
                      university_name = uni_name\<rparr>], 1)"
    by (simp add: insert_news_data_def formatted_data_def check_url_availability_def
        execute_insert_def title_exists_def row_of_def)
qed

theorem extract_news_keeps_duplicates_sample:
  "extract_news (sample_runtime\<lparr>requests_head := \<lambda>link_url. Inr 200\<rparr>) html_twice base_shu =
     Inr [\<lparr>title = title_shu_meeting, url = url_news_1, date = u ''2024-05-10''\<rparr>,
          \<lparr>title = title_shu_meeting, url = url_news_2, date = u ''2024-05-11''\<rparr>] \<and>
   insert_news_data (sample_runtime\<lparr>requests_head := \<lambda>link_url. Inr 200\<rparr>) []
     (formatted_data (u ''SHU'')
        [\<lparr>title = title_shu_meeting, url = url_news_1, date = u ''2024-05-10''\<rparr>,
         \<lparr>title = title_shu_meeting, url = url_news_2, date = u ''2024-05-11''\<rparr>]) =
     ([row_of \<lparr>title = title_shu_meeting, url = url_news_1, date = u ''2024-05-10'',
               university_name = u ''SHU''\<rparr>], 1)"
proof -
  let ?rt = "sample_runtime\<lparr>requests_head := \<lambda>link_url. Inr 200\<rparr>"
  have p: "BeautifulSoup ?rt html_twice = Inr doc_twice"
    using sample_parser(2) by (simp add: sample_runtime_def)
  have u1: "urljoin ?rt base_shu (u ''/news/1.htm'') = Inr url_news_1"
    using sample_urls(1) by (simp add: sample_runtime_def)
  have u2: "urljoin ?rt base_shu (u ''/news/2.htm'') = Inr url_news_2"
    using sample_urls(2) by (simp add: sample_runtime_def)
  have d: "decimal_ok (decimal_of ?rt)"
    by (simp add: sample_runtime_def decimal_ok_ascii)
  from extract_news_keeps_duplicates [OF p u1 u2 d, of "u ''SHU''"]
  show ?thesis by (simp add: sample_runtime_def)
qed

end
